theory Spec2Isabelle
  imports Main
begin

section \<open>Text and JSON\<close>

text \<open>
  The application keeps its proverbs in one file, \<^verbatim>\<open>data/proverbs.json\<close>, that it
  reads whole with \<^verbatim>\<open>JSON.parse\<close> and rewrites whole with
  \<^verbatim>\<open>JSON.stringify(proverbs, null, 2)\<close>. A JavaScript string is modelled by the
  bytes of its UTF-8 encoding (\<^typ>\<open>string\<close>), which is also how the file holds it; a
  number that is an integer is modelled by \<^typ>\<open>int\<close>, and a sum is rounded as the
  double it is (\<open>js_add\<close> below).
\<close>

definition dquote :: char where
  "dquote = CHR 0x22"

definition bslash :: char where
  "bslash = CHR 0x5C"

definition newline :: char where
  "newline = CHR 0x0A"

datatype json =
  JNull
  | JBool bool
  | JNum int
  | JDec string
  | JStr string
  | JArr "json list"
  | JObj "(string \<times> json) list"

text \<open>
  \<open>JNum\<close> is a number written without fraction and exponent; \<open>JDec\<close> keeps the text of
  any other number literal, which the record type below has no use for.
\<close>

subsection \<open>Writing: \<^verbatim>\<open>JSON.stringify(value, null, 2)\<close>\<close>

definition digit_char :: "nat \<Rightarrow> char" where
  "digit_char d = ''0123456789abcdef'' ! (d mod 16)"

fun digits :: "nat \<Rightarrow> string" where
  "digits n = (if n < 10 then [digit_char n] else digits (n div 10) @ [digit_char (n mod 10)])"

declare digits.simps [simp del]

definition show_int :: "int \<Rightarrow> string" where
  "show_int i = (if i < 0 then CHR ''-'' # digits (nat (- i)) else digits (nat i))"

text \<open>
  \<^verbatim>\<open>QuoteJSONString\<close>: the two-character escapes, \<^verbatim>\<open>\u00xx\<close> for the other
  control characters, every other byte as it is.
\<close>

definition escape_char :: "char \<Rightarrow> string" where
  "escape_char c =
     (if c = CHR 0x08 then [bslash, CHR ''b'']
      else if c = CHR 0x09 then [bslash, CHR ''t'']
      else if c = CHR 0x0A then [bslash, CHR ''n'']
      else if c = CHR 0x0C then [bslash, CHR ''f'']
      else if c = CHR 0x0D then [bslash, CHR ''r'']
      else if c = dquote then [bslash, dquote]
      else if c = bslash then [bslash, bslash]
      else if of_char c < (32::nat) then
        [bslash, CHR ''u'', CHR ''0'', CHR ''0'',
         digit_char (of_char c div 16), digit_char (of_char c mod 16)]
      else [c])"

definition quote :: "string \<Rightarrow> string" where
  "quote s = dquote # concat (map escape_char s) @ [dquote]"

definition gap :: string where
  "gap = ''  ''"

text \<open>
  \<^verbatim>\<open>SerializeJSONProperty\<close> at the indentation \<open>ind\<close>: an empty array is
  \<^verbatim>\<open>[]\<close>, a non-empty one has each element on a line of its own, one \<open>gap\<close> deeper,
  and the closing bracket back at \<open>ind\<close>; objects alike, with \<^verbatim>\<open>"key": value\<close>.
\<close>

fun stringify_value :: "string \<Rightarrow> json \<Rightarrow> string"
  and stringify_elems :: "string \<Rightarrow> json list \<Rightarrow> string"
  and stringify_members :: "string \<Rightarrow> (string \<times> json) list \<Rightarrow> string"
where
  "stringify_value ind JNull = ''null''"
| "stringify_value ind (JBool b) = (if b then ''true'' else ''false'')"
| "stringify_value ind (JNum n) = show_int n"
| "stringify_value ind (JDec s) = s"
| "stringify_value ind (JStr s) = quote s"
| "stringify_value ind (JArr []) = ''[]''"
| "stringify_value ind (JArr (x # xs)) =
     ''['' @ [newline] @ (ind @ gap) @ stringify_elems (ind @ gap) (x # xs)
       @ [newline] @ ind @ '']''"
| "stringify_value ind (JObj []) = ''{}''"
| "stringify_value ind (JObj (m # ms)) =
     ''{'' @ [newline] @ (ind @ gap) @ stringify_members (ind @ gap) (m # ms)
       @ [newline] @ ind @ ''}''"
| "stringify_elems ind [] = []"
| "stringify_elems ind [x] = stringify_value ind x"
| "stringify_elems ind (x # y # ys) =
     stringify_value ind x @ '','' @ [newline] @ ind @ stringify_elems ind (y # ys)"
| "stringify_members ind [] = []"
| "stringify_members ind [(k, v)] = quote k @ '': '' @ stringify_value ind v"
| "stringify_members ind ((k, v) # m # ms) =
     quote k @ '': '' @ stringify_value ind v @ '','' @ [newline] @ ind
       @ stringify_members ind (m # ms)"

subsection \<open>Reading: \<^verbatim>\<open>JSON.parse\<close>\<close>

definition is_ws :: "char \<Rightarrow> bool" where
  "is_ws c \<longleftrightarrow> c = CHR 0x20 \<or> c = CHR 0x09 \<or> c = CHR 0x0A \<or> c = CHR 0x0D"

definition skip_ws :: "string \<Rightarrow> string" where
  "skip_ws s = dropWhile is_ws s"

definition is_digit :: "char \<Rightarrow> bool" where
  "is_digit c \<longleftrightarrow> (48::nat) \<le> of_char c \<and> of_char c \<le> (57::nat)"

definition digit_val :: "char \<Rightarrow> nat" where
  "digit_val c = of_char c - 48"

definition digits_val :: "string \<Rightarrow> nat" where
  "digits_val ds = foldl (\<lambda>a c. 10 * a + digit_val c) 0 ds"

definition hex_val :: "char \<Rightarrow> nat option" where
  "hex_val c =
     (let n = (of_char c :: nat) in
      if 48 \<le> n \<and> n \<le> 57 then Some (n - 48)
      else if 97 \<le> n \<and> n \<le> 102 then Some (n - 87)
      else if 65 \<le> n \<and> n \<le> 70 then Some (n - 55)
      else None)"

definition hex4 :: "char \<Rightarrow> char \<Rightarrow> char \<Rightarrow> char \<Rightarrow> nat option" where
  "hex4 a b c d =
     (case (hex_val a, hex_val b, hex_val c, hex_val d) of
        (Some x, Some y, Some z, Some w) \<Rightarrow> Some (((x * 16 + y) * 16 + z) * 16 + w)
      | _ \<Rightarrow> None)"

text \<open>The UTF-8 bytes of a code point.\<close>

definition utf8 :: "nat \<Rightarrow> string" where
  "utf8 u =
     (if u < 0x80 then [char_of u]
      else if u < 0x800 then [char_of (0xC0 + u div 64), char_of (0x80 + u mod 64)]
      else if u < 0x10000 then
        [char_of (0xE0 + u div 4096), char_of (0x80 + u div 64 mod 64), char_of (0x80 + u mod 64)]
      else
        [char_of (0xF0 + u div 262144), char_of (0x80 + u div 4096 mod 64),
         char_of (0x80 + u div 64 mod 64), char_of (0x80 + u mod 64)])"

definition unescape :: "char \<Rightarrow> char option" where
  "unescape e =
     (if e = dquote then Some dquote
      else if e = bslash then Some bslash
      else if e = CHR ''/'' then Some (CHR ''/'')
      else if e = CHR ''b'' then Some (CHR 0x08)
      else if e = CHR ''f'' then Some (CHR 0x0C)
      else if e = CHR ''n'' then Some (CHR 0x0A)
      else if e = CHR ''r'' then Some (CHR 0x0D)
      else if e = CHR ''t'' then Some (CHR 0x09)
      else None)"

text \<open>
  The low half of a surrogate pair written as a second \<^verbatim>\<open>\uXXXX\<close> escape: its code
  unit and the text after it.
\<close>

definition low_surrogate :: "string \<Rightarrow> (nat \<times> string) option" where
  "low_surrogate s =
     (case s of
        b # u # h1 # h2 # h3 # h4 # r \<Rightarrow>
          if b = bslash \<and> u = CHR ''u'' then
            (case hex4 h1 h2 h3 h4 of
               None \<Rightarrow> None
             | Some lo \<Rightarrow> if 0xDC00 \<le> lo \<and> lo < 0xE000 then Some (lo, r) else None)
          else None
      | _ \<Rightarrow> None)"

text \<open>
  The characters of a string literal after its opening quote, up to the closing quote:
  the string and the text that follows. A raw control character is an error.
\<close>

fun parse_chars :: "string \<Rightarrow> (string \<times> string) option" where
  "parse_chars [] = None"
| "parse_chars (c # cs) =
     (if c = dquote then Some ([], cs)
      else if c = bslash then
        (case cs of
           [] \<Rightarrow> None
         | e # cs' \<Rightarrow>
             if e = CHR ''u'' then
               (case cs' of
                  h1 # h2 # h3 # h4 # cs'' \<Rightarrow>
                    (case hex4 h1 h2 h3 h4 of
                       None \<Rightarrow> None
                     | Some u \<Rightarrow>
                         (case (if 0xD800 \<le> u \<and> u < 0xDC00 then low_surrogate cs'' else None) of
                            Some (lo, r) \<Rightarrow>
                              (case parse_chars (drop 6 cs'') of
                                 None \<Rightarrow> None
                               | Some (s, r') \<Rightarrow>
                                   Some (utf8 (0x10000 + (u - 0xD800) * 1024 + (lo - 0xDC00)) @ s, r'))
                          | None \<Rightarrow>
                              (case parse_chars cs'' of
                                 None \<Rightarrow> None
                               | Some (s, r') \<Rightarrow> Some (utf8 u @ s, r'))))
                | _ \<Rightarrow> None)
             else
               (case unescape e of
                  None \<Rightarrow> None
                | Some d \<Rightarrow>
                    (case parse_chars cs' of
                       None \<Rightarrow> None
                     | Some (s, r') \<Rightarrow> Some (d # s, r'))))
      else if of_char c < (32::nat) then None
      else
        (case parse_chars cs of
           None \<Rightarrow> None
         | Some (s, r') \<Rightarrow> Some (c # s, r')))"

text \<open>
  A number literal: an optional minus sign, an integer part without leading zeros, an
  optional fraction and an optional exponent.
\<close>

definition parse_exponent :: "string \<Rightarrow> string option" where
  "parse_exponent s =
     (case s of
        [] \<Rightarrow> Some s
      | e # r \<Rightarrow>
          if e = CHR ''e'' \<or> e = CHR ''E'' then
            (let r' = (case r of
                         [] \<Rightarrow> r
                       | g # t \<Rightarrow> if g = CHR ''+'' \<or> g = CHR ''-'' then t else r)
             in if takeWhile is_digit r' = [] then None else Some (dropWhile is_digit r'))
          else Some s)"

definition parse_fraction :: "string \<Rightarrow> string option" where
  "parse_fraction s =
     (case s of
        [] \<Rightarrow> Some s
      | p # r \<Rightarrow>
          if p = CHR ''.'' then
            (if takeWhile is_digit r = [] then None else Some (dropWhile is_digit r))
          else Some s)"

definition parse_number :: "string \<Rightarrow> (json \<times> string) option" where
  "parse_number s =
     (let neg = (case s of [] \<Rightarrow> False | c # _ \<Rightarrow> c = CHR ''-'');
          s1 = (if neg then tl s else s);
          ds = takeWhile is_digit s1;
          r1 = dropWhile is_digit s1
      in if ds = [] then None
         else if 1 < length ds \<and> hd ds = CHR ''0'' then None
         else
           (case parse_fraction r1 of
              None \<Rightarrow> None
            | Some r2 \<Rightarrow>
                (case parse_exponent r2 of
                   None \<Rightarrow> None
                 | Some r3 \<Rightarrow>
                     if r3 = r1 then
                       Some (JNum (if neg then - int (digits_val ds) else int (digits_val ds)), r3)
                     else Some (JDec (take (length s - length r3) s), r3))))"

definition parse_literal :: "string \<Rightarrow> (json \<times> string) option" where
  "parse_literal s =
     (if take 4 s = ''true'' then Some (JBool True, drop 4 s)
      else if take 5 s = ''false'' then Some (JBool False, drop 5 s)
      else if take 4 s = ''null'' then Some (JNull, drop 4 s)
      else parse_number s)"

text \<open>
  The recursive descent over values, array elements and object members. The first
  argument bounds the depth of the calls. Of two calls in a row at least one reads a
  character, so twice the length of the text is enough (\<open>parse_value_depth\<close> below):
  \<open>JSON_parse\<close> never fails for want of depth.
\<close>

fun parse_value :: "nat \<Rightarrow> string \<Rightarrow> (json \<times> string) option"
  and parse_elems :: "nat \<Rightarrow> string \<Rightarrow> (json list \<times> string) option"
  and parse_members :: "nat \<Rightarrow> string \<Rightarrow> ((string \<times> json) list \<times> string) option"
where
  "parse_value 0 s = None"
| "parse_value (Suc n) s =
     (case skip_ws s of
        [] \<Rightarrow> None
      | c # cs \<Rightarrow>
          if c = dquote then
            (case parse_chars cs of
               None \<Rightarrow> None
             | Some (str, r) \<Rightarrow> Some (JStr str, r))
          else if c = CHR ''['' then
            (case skip_ws cs of
               [] \<Rightarrow> None
             | d # ds \<Rightarrow>
                 if d = CHR '']'' then Some (JArr [], ds)
                 else
                   (case parse_elems n cs of
                      None \<Rightarrow> None
                    | Some (xs, r) \<Rightarrow> Some (JArr xs, r)))
          else if c = CHR ''{'' then
            (case skip_ws cs of
               [] \<Rightarrow> None
             | d # ds \<Rightarrow>
                 if d = CHR ''}'' then Some (JObj [], ds)
                 else
                   (case parse_members n cs of
                      None \<Rightarrow> None
                    | Some (ms, r) \<Rightarrow> Some (JObj ms, r)))
          else parse_literal (c # cs))"
| "parse_elems 0 s = None"
| "parse_elems (Suc n) s =
     (case parse_value n s of
        None \<Rightarrow> None
      | Some (x, r) \<Rightarrow>
          (case skip_ws r of
             [] \<Rightarrow> None
           | d # ds \<Rightarrow>
               if d = CHR '','' then
                 (case parse_elems n ds of
                    None \<Rightarrow> None
                  | Some (xs, r') \<Rightarrow> Some (x # xs, r'))
               else if d = CHR '']'' then Some ([x], ds)
               else None))"
| "parse_members 0 s = None"
| "parse_members (Suc n) s =
     (case skip_ws s of
        [] \<Rightarrow> None
      | c # cs \<Rightarrow>
          if c \<noteq> dquote then None
          else
            (case parse_chars cs of
               None \<Rightarrow> None
             | Some (k, r) \<Rightarrow>
                 (case skip_ws r of
                    [] \<Rightarrow> None
                  | d # ds \<Rightarrow>
                      if d \<noteq> CHR '':'' then None
                      else
                        (case parse_value n ds of
                           None \<Rightarrow> None
                         | Some (v, r') \<Rightarrow>
                             (case skip_ws r' of
                                [] \<Rightarrow> None
                              | e # es \<Rightarrow>
                                  if e = CHR '','' then
                                    (case parse_members n es of
                                       None \<Rightarrow> None
                                     | Some (ms, r'') \<Rightarrow> Some ((k, v) # ms, r''))
                                  else if e = CHR ''}'' then Some ([(k, v)], es)
                                  else None)))))"

datatype error = ENOENT | SyntaxError | RangeError

definition JSON_parse :: "string \<Rightarrow> error + json" where
  "JSON_parse text =
     (case parse_value (2 * length text + 2) text of
        None \<Rightarrow> Inl SyntaxError
      | Some (v, r) \<Rightarrow> if skip_ws r = [] then Inr v else Inl SyntaxError)"

section \<open>Proverb records\<close>

text \<open>
  A proverb is an object with a numeric \<^verbatim>\<open>id\<close> and five text fields. A field that
  reads as \<^verbatim>\<open>undefined\<close> is \<open>None\<close>, whether the object has no such key or
  holds \<^verbatim>\<open>undefined\<close> under it: property access cannot tell the two apart.
\<close>

record proverb =
  id_num :: int
  textDari :: "string option"
  textPashto :: "string option"
  translationEn :: "string option"
  meaning :: "string option"
  category :: "string option"

text \<open>
  The object \<^verbatim>\<open>JSON.stringify\<close> sees: a member whose value is
  \<^verbatim>\<open>undefined\<close> is left out.
\<close>

definition obj_member :: "string \<Rightarrow> string option \<Rightarrow> (string \<times> json) list" where
  "obj_member k v = (case v of None \<Rightarrow> [] | Some s \<Rightarrow> [(k, JStr s)])"

definition to_json :: "proverb \<Rightarrow> json" where
  "to_json p =
     JObj ((''id'', JNum (id_num p))
           # obj_member ''textDari'' (textDari p)
           @ obj_member ''textPashto'' (textPashto p)
           @ obj_member ''translationEn'' (translationEn p)
           @ obj_member ''meaning'' (meaning p)
           @ obj_member ''category'' (category p))"

definition JSON_stringify :: "proverb list \<Rightarrow> string" where
  "JSON_stringify proverbs = stringify_value [] (JArr (map to_json proverbs))"

text \<open>
  The other direction: a parsed value as a sequence of proverbs. It is \<open>None\<close> for a
  value that is not an array of objects with an integer \<^verbatim>\<open>id\<close> and strings under
  the other five keys (each key at most once, no other keys); such a file is outside the
  data model, and the embedding says nothing about what the handlers do with it.
\<close>

definition text_field :: "(string \<times> json) list \<Rightarrow> string \<Rightarrow> string option option" where
  "text_field ms k =
     (case map_of ms k of
        None \<Rightarrow> Some None
      | Some (JStr s) \<Rightarrow> Some (Some s)
      | Some _ \<Rightarrow> None)"

definition field_names :: "string list" where
  "field_names = [''id'', ''textDari'', ''textPashto'', ''translationEn'', ''meaning'', ''category'']"

definition as_proverb :: "json \<Rightarrow> proverb option" where
  "as_proverb v =
     (case v of
        JObj ms \<Rightarrow>
          if \<not> distinct (map fst ms) \<or> \<not> list_all (\<lambda>k. k \<in> set field_names) (map fst ms)
          then None
          else
            (case (map_of ms ''id'', text_field ms ''textDari'', text_field ms ''textPashto'',
                   text_field ms ''translationEn'', text_field ms ''meaning'',
                   text_field ms ''category'') of
               (Some (JNum n), Some d, Some p, Some t, Some m, Some c) \<Rightarrow>
                 Some \<lparr>id_num = n, textDari = d, textPashto = p, translationEn = t,
                       meaning = m, category = c\<rparr>
             | _ \<Rightarrow> None)
      | _ \<Rightarrow> None)"

definition as_proverbs :: "json \<Rightarrow> proverb list option" where
  "as_proverbs v = (case v of JArr xs \<Rightarrow> those (map as_proverb xs) | _ \<Rightarrow> None)"

section \<open>The store\<close>

text \<open>
  The state is the content of the file \<^verbatim>\<open>PROVERBS_FILE\<close>: \<open>None\<close> when there is no
  such file. Reading an absent file fails with \<^verbatim>\<open>ENOENT\<close>; the directory exists,
  and reading a file that exists and writing succeed.
\<close>

type_synonym proverbs_file = "string option"

definition readFile :: "proverbs_file \<Rightarrow> error + string" where
  "readFile fs = (case fs of None \<Rightarrow> Inl ENOENT | Some data \<Rightarrow> Inr data)"

definition writeFile :: "proverbs_file \<Rightarrow> string \<Rightarrow> proverbs_file" where
  "writeFile fs data = Some data"

text \<open>
  \<^verbatim>\<open>readProverbs\<close>: the \<^verbatim>\<open>try\<close> block reads and parses; the
  \<^verbatim>\<open>catch\<close> block writes \<^verbatim>\<open>[]\<close> and returns the empty array when the error's
  code is \<^verbatim>\<open>ENOENT\<close>, and throws the error again otherwise.
\<close>

definition readProverbs :: "proverbs_file \<Rightarrow> proverbs_file \<times> (error + json)" where
  "readProverbs fs =
     (case (case readFile fs of Inl error \<Rightarrow> Inl error | Inr data \<Rightarrow> JSON_parse data) of
        Inr v \<Rightarrow> (fs, Inr v)
      | Inl error \<Rightarrow>
          if error = ENOENT then (writeFile fs ''[]'', Inr (JArr []))
          else (fs, Inl error))"

definition writeProverbs :: "proverbs_file \<Rightarrow> proverb list \<Rightarrow> proverbs_file" where
  "writeProverbs fs proverbs = writeFile fs (JSON_stringify proverbs)"

text \<open>
  What a handler holds after \<^verbatim>\<open>await readProverbs()\<close>: the file as the call left
  it, and the error thrown or the proverbs returned. \<open>None\<close> when the file holds JSON
  outside the data model.
\<close>

definition read_all :: "proverbs_file \<Rightarrow> (proverbs_file \<times> (error + proverb list)) option" where
  "read_all fs =
     (case readProverbs fs of
        (fs', Inl error) \<Rightarrow> Some (fs', Inl error)
      | (fs', Inr v) \<Rightarrow>
          (case as_proverbs v of
             None \<Rightarrow> None
           | Some proverbs \<Rightarrow> Some (fs', Inr proverbs)))"

section \<open>Requests and responses\<close>

text \<open>
  A form body maps field names to the strings submitted; a field that was not submitted
  is \<open>None\<close>. A value is falsy when it is \<^verbatim>\<open>undefined\<close> or the empty string.
\<close>

type_synonym body = "string \<Rightarrow> string option"

definition falsy :: "string option \<Rightarrow> bool" where
  "falsy v = (case v of None \<Rightarrow> True | Some s \<Rightarrow> s = [])"

datatype response =
  Redirect string
  | Render_proverb_details proverb
  | Render_add_proverb string body
  | Render_edit_proverb body string string

text \<open>
  \<open>Render_add_proverb error formData\<close> is the form with an error message and the
  values to fill in; \<open>Render_edit_proverb body id error\<close> is the edit form over
  \<^verbatim>\<open>{ ...req.body, id: req.params.id }\<close>.
\<close>

text \<open>
  \<^verbatim>\<open>parseInt(req.params.id)\<close>: white space is skipped, then a sign, then
  \<^verbatim>\<open>0x\<close> selects base 16, then the digits are read up to the first character that is
  not one. \<open>None\<close> is \<^verbatim>\<open>NaN\<close>, which is equal to no number.
\<close>

definition is_space :: "char \<Rightarrow> bool" where
  "is_space c \<longleftrightarrow>
     c = CHR 0x20 \<or> c = CHR 0x09 \<or> c = CHR 0x0A \<or> c = CHR 0x0B \<or> c = CHR 0x0C \<or> c = CHR 0x0D"

definition radix_digit :: "nat \<Rightarrow> char \<Rightarrow> bool" where
  "radix_digit radix c = (case hex_val c of None \<Rightarrow> False | Some d \<Rightarrow> d < radix)"

definition radix_val :: "nat \<Rightarrow> string \<Rightarrow> nat" where
  "radix_val radix z = foldl (\<lambda>a c. radix * a + (case hex_val c of None \<Rightarrow> 0 | Some d \<Rightarrow> d)) 0 z"

definition parseInt :: "string \<Rightarrow> int option" where
  "parseInt s =
     (let s1 = dropWhile is_space s;
          neg = (case s1 of [] \<Rightarrow> False | c # _ \<Rightarrow> c = CHR ''-'');
          s2 = (case s1 of [] \<Rightarrow> s1 | c # cs \<Rightarrow> if c = CHR ''-'' \<or> c = CHR ''+'' then cs else s1);
          hex = (case s2 of
                   a # b # _ \<Rightarrow> a = CHR ''0'' \<and> (b = CHR ''x'' \<or> b = CHR ''X'')
                 | _ \<Rightarrow> False);
          radix = (if hex then 16 else 10);
          s3 = (if hex then drop 2 s2 else s2);
          z = takeWhile (radix_digit radix) s3
      in if z = [] then None
         else Some (if neg then - int (radix_val radix z) else int (radix_val radix z)))"

section \<open>The handlers\<close>

text \<open>
  Each handler takes the file and the request and returns the file and the response;
  the \<^verbatim>\<open>catch\<close> block of a handler is its \<open>Inl\<close> branch.
\<close>

text \<open>\<^verbatim>\<open>GET /proverb/:id\<close>\<close>

definition get_proverb :: "proverbs_file \<Rightarrow> string \<Rightarrow> (proverbs_file \<times> response) option" where
  "get_proverb fs params_id =
     (case read_all fs of
        None \<Rightarrow> None
      | Some (fs', Inl error) \<Rightarrow> Some (fs', Redirect ''/?error=Failed to load proverb'')
      | Some (fs', Inr proverbs) \<Rightarrow>
          (case find (\<lambda>p. Some (id_num p) = parseInt params_id) proverbs of
             None \<Rightarrow> Some (fs', Redirect ''/?error=Proverb not found'')
           | Some proverb \<Rightarrow> Some (fs', Render_proverb_details proverb)))"

text \<open>
  Numbers are IEEE 754 doubles. \<open>to_double n\<close> is the double nearest to the integer
  \<open>n\<close>: \<open>n\<close> itself when it has at most 53 significant bits, otherwise \<open>n\<close> rounded to
  53 significant bits, a tie going to the even significand. The sum of two doubles is
  the exact sum rounded this way. (From about \<open>2 ^ 1024\<close> on the double is
  \<^verbatim>\<open>Infinity\<close>; ids of that size are outside the model.)
\<close>

fun bit_length :: "nat \<Rightarrow> nat" where
  "bit_length n = (if n = 0 then 0 else Suc (bit_length (n div 2)))"

declare bit_length.simps [simp del]

definition to_double :: "int \<Rightarrow> int" where
  "to_double n =
     (let m = nat \<bar>n\<bar>;
          e = bit_length m - 53;
          q = m div 2 ^ e;
          r = m mod 2 ^ e;
          q' = (if 2 ^ e < 2 * r \<or> (2 * r = 2 ^ e \<and> odd q) then Suc q else q)
      in sgn n * int (q' * 2 ^ e))"

definition js_add :: "int \<Rightarrow> int \<Rightarrow> int" where
  "js_add a b = to_double (a + b)"

text \<open>
  \<^verbatim>\<open>Math.max(...ids)\<close> passes one argument for each record. A call with more
  arguments than the engine accepts throws \<^verbatim>\<open>RangeError\<close>; that number is not in
  the source and is the parameter \<open>max_arguments\<close>. The test
  \<^verbatim>\<open>proverbs.length > 0\<close> keeps the call away from the empty list.
\<close>

definition Math_max :: "nat \<Rightarrow> int \<Rightarrow> int list \<Rightarrow> error + int" where
  "Math_max max_arguments x xs =
     (if max_arguments < length (x # xs) then Inl RangeError else Inr (fold max xs x))"

definition next_id :: "nat \<Rightarrow> proverb list \<Rightarrow> error + int" where
  "next_id max_arguments proverbs =
     (case map id_num proverbs of
        [] \<Rightarrow> Inr 1
      | x # xs \<Rightarrow>
          (case Math_max max_arguments x xs of
             Inl error \<Rightarrow> Inl error
           | Inr m \<Rightarrow> Inr (js_add m 1)))"

text \<open>
  \<^verbatim>\<open>POST /add-proverb\<close>. \<open>newProverb i b\<close> is the object literal, \<open>i\<close> the value of
  its \<^verbatim>\<open>id\<close> expression; an error thrown there goes to the \<^verbatim>\<open>catch\<close> block
  like one of \<^verbatim>\<open>readProverbs\<close>.
\<close>

definition newProverb :: "int \<Rightarrow> body \<Rightarrow> proverb" where
  "newProverb i b =
     \<lparr>id_num = i,
      textDari = b ''textDari'',
      textPashto = b ''textPashto'',
      translationEn = b ''translationEn'',
      meaning = (if falsy (b ''meaning'') then Some [] else b ''meaning''),
      category = b ''category''\<rparr>"

definition post_add_proverb ::
    "nat \<Rightarrow> proverbs_file \<Rightarrow> body \<Rightarrow> (proverbs_file \<times> response) option" where
  "post_add_proverb max_arguments fs b =
     (if falsy (b ''textDari'') \<or> falsy (b ''textPashto'') \<or> falsy (b ''translationEn'')
         \<or> falsy (b ''category'')
      then Some (fs, Render_add_proverb ''Please fill in all required fields'' b)
      else
        (case read_all fs of
           None \<Rightarrow> None
         | Some (fs', Inl error) \<Rightarrow> Some (fs', Render_add_proverb ''Failed to add proverb'' b)
         | Some (fs', Inr proverbs) \<Rightarrow>
             (case next_id max_arguments proverbs of
                Inl error \<Rightarrow> Some (fs', Render_add_proverb ''Failed to add proverb'' b)
              | Inr i \<Rightarrow>
                  Some (writeProverbs fs' (proverbs @ [newProverb i b]),
                        Redirect ''/?success=Proverb added successfully''))))"

text \<open>\<^verbatim>\<open>POST /edit-proverb/:id\<close>; \<open>findIndex\<close> is \<open>None\<close> for \<open>-1\<close>.\<close>

fun findIndex :: "('a \<Rightarrow> bool) \<Rightarrow> 'a list \<Rightarrow> nat option" where
  "findIndex P [] = None"
| "findIndex P (x # xs) = (if P x then Some 0 else map_option Suc (findIndex P xs))"

definition edited :: "proverb \<Rightarrow> body \<Rightarrow> proverb" where
  "edited p b =
     p\<lparr>textDari := b ''textDari'',
       textPashto := b ''textPashto'',
       translationEn := b ''translationEn'',
       meaning := b ''meaning'',
       category := b ''category''\<rparr>"

definition post_edit_proverb :: "proverbs_file \<Rightarrow> string \<Rightarrow> body \<Rightarrow> (proverbs_file \<times> response) option" where
  "post_edit_proverb fs params_id b =
     (case read_all fs of
        None \<Rightarrow> None
      | Some (fs', Inl error) \<Rightarrow>
          Some (fs', Render_edit_proverb b params_id ''Failed to update proverb'')
      | Some (fs', Inr proverbs) \<Rightarrow>
          (case findIndex (\<lambda>p. Some (id_num p) = parseInt params_id) proverbs of
             None \<Rightarrow> Some (fs', Redirect ''/?error=Proverb not found'')
           | Some index \<Rightarrow>
               Some (writeProverbs fs' (proverbs[index := edited (proverbs ! index) b]),
                     Redirect (''/proverb/'' @ params_id
                               @ ''?success=Proverb updated successfully''))))"

text \<open>\<^verbatim>\<open>POST /delete-proverb/:id\<close>\<close>

definition post_delete_proverb :: "proverbs_file \<Rightarrow> string \<Rightarrow> (proverbs_file \<times> response) option" where
  "post_delete_proverb fs params_id =
     (case read_all fs of
        None \<Rightarrow> None
      | Some (fs', Inl error) \<Rightarrow>
          Some (fs', Redirect (''/proverb/'' @ params_id @ ''?error=Failed to delete proverb''))
      | Some (fs', Inr proverbs) \<Rightarrow>
          (let filteredProverbs = filter (\<lambda>p. Some (id_num p) \<noteq> parseInt params_id) proverbs
           in if length proverbs = length filteredProverbs
              then Some (fs', Redirect (''/proverb/'' @ params_id @ ''?error=Proverb not found''))
              else Some (writeProverbs fs' filteredProverbs,
                         Redirect ''/?success=Proverb deleted successfully'')))"

section \<open>Initialization\<close>

definition sample1 :: proverb where
  "sample1 =
     \<lparr>id_num = 1,
      textDari =
        Some [CHR 0xD8, CHR 0xA8, CHR 0xD8, CHR 0xA7, CHR 0x20, CHR 0xDB, CHR 0x8C,
           CHR 0xDA, CHR 0xA9, CHR 0x20, CHR 0xD8, CHR 0xAF, CHR 0xD8, CHR 0xB3, CHR 0xD8,
           CHR 0xAA, CHR 0x20, CHR 0xD8, CHR 0xAF, CHR 0xD9, CHR 0x88, CHR 0x20, CHR 0xD9,
           CHR 0x87, CHR 0xD9, CHR 0x86, CHR 0xD8, CHR 0xAF, CHR 0xD9, CHR 0x88, CHR 0xD8,
           CHR 0xA7, CHR 0xD9, CHR 0x86, CHR 0xD9, CHR 0x87, CHR 0x20, CHR 0xD9, CHR 0x86,
           CHR 0xD8, CHR 0xAA, CHR 0xD9, CHR 0x88, CHR 0xD8, CHR 0xA7, CHR 0xD9, CHR 0x86,
           CHR 0x20, CHR 0xDA, CHR 0xAF, CHR 0xD8, CHR 0xB1, CHR 0xD9, CHR 0x81, CHR 0xD8,
           CHR 0xAA],
      textPashto =
        Some [CHR 0xD9, CHR 0xBE, CHR 0xD9, CHR 0x87, CHR 0x20, CHR 0xDB, CHR 0x8C,
           CHR 0xD9, CHR 0x88, CHR 0xD9, CHR 0x87, CHR 0x20, CHR 0xD8, CHR 0xA7, CHR 0xD9,
           CHR 0x84, CHR 0xD8, CHR 0xB3, CHR 0x20, CHR 0xD8, CHR 0xAF, CHR 0xD9, CHR 0x88,
           CHR 0x20, CHR 0xD9, CHR 0x87, CHR 0xD9, CHR 0x86, CHR 0xD8, CHR 0xAF, CHR 0xD9,
           CHR 0x88, CHR 0xD8, CHR 0xA7, CHR 0xD9, CHR 0x86, CHR 0xDB, CHR 0x90, CHR 0x20,
           CHR 0xD9, CHR 0x86, CHR 0xD9, CHR 0x87, CHR 0x20, CHR 0xD8, CHR 0xB4, CHR 0xD9,
           CHR 0x8A, CHR 0x20, CHR 0xD9, CHR 0x86, CHR 0xDB, CHR 0x8C, CHR 0xD9, CHR 0x88,
           CHR 0xD9, CHR 0x84, CHR 0x20, CHR 0xDA, CHR 0xA9, CHR 0xDB, CHR 0x90, CHR 0xD8,
           CHR 0xAF, CHR 0xD8, CHR 0xA7, CHR 0xDB, CHR 0x8C],
      translationEn =
        Some (''You can''
          @ [CHR 0x27]
          @ ''t hold two watermelons in one hand''),
      meaning =
        Some (''Don''
          @ [CHR 0x27]
          @ ''t take on more tasks than you can handle''),
      category =
        Some ''wisdom''\<rparr>"

definition sample2 :: proverb where
  "sample2 =
     \<lparr>id_num = 2,
      textDari =
        Some [CHR 0xD8, CHR 0xAF, CHR 0xD9, CHR 0x88, CHR 0xD8, CHR 0xB3, CHR 0xD8,
           CHR 0xAA, CHR 0x20, CHR 0xD8, CHR 0xA7, CHR 0xD8, CHR 0xB2, CHR 0x20, CHR 0xD8,
           CHR 0xAF, CHR 0xD9, CHR 0x88, CHR 0xD8, CHR 0xB3, CHR 0xD8, CHR 0xAA, CHR 0x20,
           CHR 0xD8, CHR 0xA8, CHR 0xDB, CHR 0x8C, CHR 0x20, CHR 0xD9, CHR 0x86, CHR 0xDB,
           CHR 0x8C, CHR 0xD8, CHR 0xA7, CHR 0xD8, CHR 0xB2],
      textPashto =
        Some [CHR 0xD9, CHR 0x85, CHR 0xD9, CHR 0x84, CHR 0xDA, CHR 0xAB, CHR 0xD8,
           CHR 0xB1, CHR 0xDB, CHR 0x8C, CHR 0x20, CHR 0xD9, CHR 0x84, CHR 0xD9, CHR 0x87,
           CHR 0x20, CHR 0xD9, CHR 0x85, CHR 0xD9, CHR 0x84, CHR 0xDA, CHR 0xAB, CHR 0xD8,
           CHR 0xB1, CHR 0xD9, CHR 0x8A, CHR 0x20, CHR 0xD8, CHR 0xA8, CHR 0xDB, CHR 0x90,
           CHR 0x20, CHR 0xD9, CHR 0xBE, CHR 0xD8, CHR 0xB1, CHR 0xD9, CHR 0x88, CHR 0xD8,
           CHR 0xA7],
      translationEn =
        Some ''A friend is never in need of a friend'',
      meaning =
        Some ''True friends support each other'',
      category =
        Some ''friendship''\<rparr>"

definition sample3 :: proverb where
  "sample3 =
     \<lparr>id_num = 3,
      textDari =
        Some [CHR 0xD9, CHR 0x87, CHR 0xD8, CHR 0xB1, CHR 0x20, CHR 0xDA, CHR 0xA9,
           CHR 0xD9, CHR 0x87, CHR 0x20, CHR 0xD8, CHR 0xA8, CHR 0xD8, CHR 0xA7, CHR 0xD9,
           CHR 0x85, CHR 0xD8, CHR 0xB4, CHR 0x20, CHR 0xD8, CHR 0xA8, CHR 0xDB, CHR 0x8C,
           CHR 0xD8, CHR 0xB4, CHR 0xD8, CHR 0x8C, CHR 0x20, CHR 0xD8, CHR 0xA8, CHR 0xD8,
           CHR 0xB1, CHR 0xD9, CHR 0x81, CHR 0xD8, CHR 0xB4, CHR 0x20, CHR 0xD8, CHR 0xA8,
           CHR 0xDB, CHR 0x8C, CHR 0xD8, CHR 0xB4, CHR 0xD8, CHR 0xAA, CHR 0xD8, CHR 0xB1],
      textPashto =
        Some [CHR 0xDA, CHR 0x86, CHR 0xD8, CHR 0xA7, CHR 0x20, CHR 0xDA, CHR 0x86,
           CHR 0xDB, CHR 0x90, CHR 0x20, CHR 0xD8, CHR 0xAF, CHR 0x20, CHR 0xDA, CHR 0xAB,
           CHR 0xD8, CHR 0xB1, CHR 0xDA, CHR 0x81, CHR 0xDB, CHR 0x90, CHR 0x20, CHR 0xD9,
           CHR 0x84, CHR 0xD9, CHR 0x88, CHR 0xDA, CHR 0x93, CHR 0xD9, CHR 0x88, CHR 0xD8,
           CHR 0xA7, CHR 0xD9, CHR 0x84, CHR 0xDB, CHR 0x8C, CHR 0x20, CHR 0xD8, CHR 0xB2,
           CHR 0xDB, CHR 0x8C, CHR 0xD8, CHR 0xA7, CHR 0xD8, CHR 0xAA, CHR 0x20, CHR 0xD9,
           CHR 0x88, CHR 0xD9, CHR 0x8A, CHR 0xD8, CHR 0x8C, CHR 0x20, CHR 0xD8, CHR 0xAF,
           CHR 0x20, CHR 0xD8, CHR 0xA8, CHR 0xD8, CHR 0xB1, CHR 0xD9, CHR 0x81, CHR 0x20,
           CHR 0xDA, CHR 0xA9, CHR 0xDA, CHR 0x86, CHR 0xD9, CHR 0x87, CHR 0x20, CHR 0xDB,
           CHR 0x8C, CHR 0xDB, CHR 0x90, CHR 0x20, CHR 0xD9, CHR 0x87, CHR 0xD9, CHR 0x85,
           CHR 0x20, CHR 0xD8, CHR 0xB2, CHR 0xDB, CHR 0x8C, CHR 0xD8, CHR 0xA7, CHR 0xD8,
           CHR 0xAA, CHR 0xD9, CHR 0x88, CHR 0xD9, CHR 0x8A],
      translationEn =
        Some ''The higher the roof, the more snow it collects'',
      meaning =
        Some ''Greater positions come with greater responsibilities'',
      category =
        Some ''life''\<rparr>"

definition sample4 :: proverb where
  "sample4 =
     \<lparr>id_num = 4,
      textDari =
        Some [CHR 0xD8, CHR 0xB3, CHR 0xDA, CHR 0xAF, CHR 0x20, CHR 0xD8, CHR 0xB2,
           CHR 0xD8, CHR 0xB1, CHR 0xD8, CHR 0xAF, CHR 0x20, CHR 0xD8, CHR 0xA8, CHR 0xD8,
           CHR 0xB1, CHR 0xD8, CHR 0xA7, CHR 0xD8, CHR 0xAF, CHR 0xD8, CHR 0xB1, CHR 0x20,
           CHR 0xD8, CHR 0xB4, CHR 0xD8, CHR 0xBA, CHR 0xD8, CHR 0xA7, CHR 0xD9, CHR 0x84,
           CHR 0x20, CHR 0xD8, CHR 0xA7, CHR 0xD8, CHR 0xB3, CHR 0xD8, CHR 0xAA],
      textPashto =
        Some [CHR 0xDA, CHR 0x98, CHR 0xDB, CHR 0x90, CHR 0xDA, CHR 0x93, CHR 0x20,
           CHR 0xD8, CHR 0xB3, CHR 0xD9, CHR 0xBE, CHR 0xDB, CHR 0x8C, CHR 0x20, CHR 0xD8,
           CHR 0xAF, CHR 0x20, CHR 0xDA, CHR 0xAB, CHR 0xDB, CHR 0x90, CHR 0xDA, CHR 0x89,
           CHR 0xDB, CHR 0x8D, CHR 0x20, CHR 0xD9, CHR 0x88, CHR 0xD8, CHR 0xB1, CHR 0xD9,
           CHR 0x88, CHR 0xD8, CHR 0xB1, CHR 0x20, CHR 0xD8, CHR 0xAF, CHR 0xDB, CHR 0x8C],
      translationEn =
        Some ''A yellow dog is a brother to the jackal'',
      meaning =
        Some ''People of similar character stick together'',
      category =
        Some ''wisdom''\<rparr>"

definition sample5 :: proverb where
  "sample5 =
     \<lparr>id_num = 5,
      textDari =
        Some [CHR 0xD8, CHR 0xA2, CHR 0xD8, CHR 0xA8, CHR 0x20, CHR 0xDA, CHR 0xA9,
           CHR 0xD9, CHR 0x87, CHR 0x20, CHR 0xD8, CHR 0xA7, CHR 0xD8, CHR 0xB2, CHR 0x20,
           CHR 0xD8, CHR 0xB3, CHR 0xD8, CHR 0xB1, CHR 0x20, CHR 0xDA, CHR 0xAF, CHR 0xD8,
           CHR 0xB0, CHR 0xD8, CHR 0xB4, CHR 0xD8, CHR 0xAA, CHR 0xD8, CHR 0x8C, CHR 0x20,
           CHR 0xDA, CHR 0x86, CHR 0xD9, CHR 0x87, CHR 0x20, CHR 0xDB, CHR 0x8C, CHR 0xDA,
           CHR 0xA9, CHR 0x20, CHR 0xD9, CHR 0x88, CHR 0xD8, CHR 0xAC, CHR 0xD8, CHR 0xA8,
           CHR 0x20, CHR 0xDA, CHR 0x86, CHR 0xD9, CHR 0x87, CHR 0x20, CHR 0xD8, CHR 0xB5,
           CHR 0xD8, CHR 0xAF, CHR 0x20, CHR 0xD9, CHR 0x88, CHR 0xD8, CHR 0xAC, CHR 0xD8,
           CHR 0xA8],
      textPashto =
        Some [CHR 0xDA, CHR 0x86, CHR 0xDB, CHR 0x90, CHR 0x20, CHR 0xD8, CHR 0xA7,
           CHR 0xD9, CHR 0x88, CHR 0xD8, CHR 0xA8, CHR 0xD9, CHR 0x87, CHR 0x20, CHR 0xD9,
           CHR 0x84, CHR 0xD9, CHR 0x87, CHR 0x20, CHR 0xD8, CHR 0xB3, CHR 0xD8, CHR 0xB1,
           CHR 0x20, CHR 0xD8, CHR 0xAA, CHR 0xDB, CHR 0x8C, CHR 0xD8, CHR 0xB1, CHR 0xDB,
           CHR 0x8C, CHR 0xDA, CHR 0x96, CHR 0xD9, CHR 0x8A, CHR 0xD8, CHR 0x8C, CHR 0x20,
           CHR 0xD9, CHR 0x86, CHR 0xD9, CHR 0x88, CHR 0x20, CHR 0xDB, CHR 0x8C, CHR 0xD9,
           CHR 0x88, CHR 0x20, CHR 0xDA, CHR 0x85, CHR 0xD9, CHR 0x88, CHR 0xDA, CHR 0xA9,
           CHR 0xD9, CHR 0x87, CHR 0x20, CHR 0xDB, CHR 0x8C, CHR 0xD8, CHR 0xA7, CHR 0x20,
           CHR 0xD8, CHR 0xB3, CHR 0xD9, CHR 0x84, CHR 0x20, CHR 0xDA, CHR 0x85, CHR 0xD9,
           CHR 0x88, CHR 0xDA, CHR 0xA9, CHR 0xD9, CHR 0x87, CHR 0x20, CHR 0xDA, CHR 0x85,
           CHR 0xD9, CHR 0x87, CHR 0x20, CHR 0xD8, CHR 0xAA, CHR 0xD9, CHR 0x88, CHR 0xD9,
           CHR 0xBE, CHR 0xDB, CHR 0x8C, CHR 0xD8, CHR 0xB1, CHR 0x20, CHR 0xD9, CHR 0x84,
           CHR 0xD8, CHR 0xB1, CHR 0xD9, CHR 0x8A],
      translationEn =
        Some (''When water has passed over your head, what difference does it make if it''
          @ [CHR 0x27]
          @ ''s one span or a hundred?''),
      meaning =
        Some (''Once you''
          @ [CHR 0x27]
          @ ''re in deep trouble, the extent doesn''
          @ [CHR 0x27]
          @ ''t matter''),
      category =
        Some ''life''\<rparr>"

definition sampleProverbs :: "proverb list" where
  "sampleProverbs = [sample1, sample2, sample3, sample4, sample5]"

text \<open>
  \<^verbatim>\<open>initializeData\<close> has no \<^verbatim>\<open>catch\<close>: an error of \<^verbatim>\<open>readProverbs\<close> is
  its own (\<open>Inl\<close>).
\<close>

definition initializeData :: "proverbs_file \<Rightarrow> (proverbs_file \<times> (error + unit)) option" where
  "initializeData fs =
     (case read_all fs of
        None \<Rightarrow> None
      | Some (fs', Inl error) \<Rightarrow> Some (fs', Inl error)
      | Some (fs', Inr proverbs) \<Rightarrow>
          if length proverbs = 0 then Some (writeProverbs fs' sampleProverbs, Inr ())
          else Some (fs', Inr ()))"

section \<open>Example data\<close>

text \<open>
  Stored proverbs with the ids 1, 2, 3 and 5 and one with the id \<open>2 ^ 53\<close>, a form that
  passes validation, and two forms that leave required fields empty or out.
\<close>

definition w1 :: proverb where
  "w1 = \<lparr>id_num = 1, textDari = Some ''dari one'', textPashto = Some ''pashto one'',
          translationEn = Some ''one'', meaning = Some [], category = Some ''wisdom''\<rparr>"


definition w3 :: proverb where
  "w3 = \<lparr>id_num = 3, textDari = Some ''dari three'', textPashto = Some ''pashto three'',
          translationEn = Some ''three'', meaning = None, category = Some ''life''\<rparr>"

definition w5 :: proverb where
  "w5 = \<lparr>id_num = 5, textDari = Some ''dari five'', textPashto = Some ''pashto five'',
          translationEn = Some ''five'', meaning = Some ''fifth'', category = Some ''life''\<rparr>"

definition w_big :: proverb where
  "w_big = \<lparr>id_num = 9007199254740992, textDari = Some ''dari big'',
             textPashto = Some ''pashto big'', translationEn = Some ''big'', meaning = Some [],
             category = Some ''life''\<rparr>"

definition form1 :: body where
  "form1 = [''textDari'' \<mapsto> ''d'', ''textPashto'' \<mapsto> ''p'', ''translationEn'' \<mapsto> ''t'',
            ''category'' \<mapsto> ''wisdom'']"

definition form2 :: body where
  "form2 = [''textDari'' \<mapsto> ''new dari'', ''textPashto'' \<mapsto> [], ''category'' \<mapsto> ''life'']"

definition form3 :: body where
  "form3 = [''textDari'' \<mapsto> ''d'', ''textPashto'' \<mapsto> [], ''meaning'' \<mapsto> ''m'',
            ''category'' \<mapsto> ''wisdom'', ''extra'' \<mapsto> ''kept'']"

text \<open>The text of the file that holds \<open>w3\<close> and \<open>w1\<close>, in this order.\<close>

definition stored_example :: string where
  "stored_example =
     ''['' @ [newline] @
     ''  {'' @ [newline] @
     ''    '' @ [dquote] @ ''id'' @ [dquote] @ '': 3,'' @ [newline] @
     ''    '' @ [dquote] @ ''textDari'' @ [dquote] @ '': '' @ [dquote] @ ''dari three'' @ [dquote]
       @ '','' @ [newline] @
     ''    '' @ [dquote] @ ''textPashto'' @ [dquote] @ '': '' @ [dquote] @ ''pashto three'' @ [dquote]
       @ '','' @ [newline] @
     ''    '' @ [dquote] @ ''translationEn'' @ [dquote] @ '': '' @ [dquote] @ ''three'' @ [dquote]
       @ '','' @ [newline] @
     ''    '' @ [dquote] @ ''category'' @ [dquote] @ '': '' @ [dquote] @ ''life'' @ [dquote]
       @ [newline] @
     ''  },'' @ [newline] @
     ''  {'' @ [newline] @
     ''    '' @ [dquote] @ ''id'' @ [dquote] @ '': 1,'' @ [newline] @
     ''    '' @ [dquote] @ ''textDari'' @ [dquote] @ '': '' @ [dquote] @ ''dari one'' @ [dquote]
       @ '','' @ [newline] @
     ''    '' @ [dquote] @ ''textPashto'' @ [dquote] @ '': '' @ [dquote] @ ''pashto one'' @ [dquote]
       @ '','' @ [newline] @
     ''    '' @ [dquote] @ ''translationEn'' @ [dquote] @ '': '' @ [dquote] @ ''one'' @ [dquote]
       @ '','' @ [newline] @
     ''    '' @ [dquote] @ ''meaning'' @ [dquote] @ '': '' @ [dquote] @ [dquote] @ '','' @ [newline] @
     ''    '' @ [dquote] @ ''category'' @ [dquote] @ '': '' @ [dquote] @ ''wisdom'' @ [dquote]
       @ [newline] @
     ''  }'' @ [newline] @
     '']''"

section \<open>Notions used in the statements\<close>

text \<open>
  The check at the head of \<^verbatim>\<open>POST /add-proverb\<close> as a predicate; a run of create
  requests, each on the file the one before left; the members of a serialized object.
\<close>

definition required_present :: "body \<Rightarrow> bool" where
  "required_present b \<longleftrightarrow>
     \<not> falsy (b ''textDari'') \<and> \<not> falsy (b ''textPashto'') \<and> \<not> falsy (b ''translationEn'')
       \<and> \<not> falsy (b ''category'')"


text \<open>
  \<^verbatim>\<open>Number.isSafeInteger\<close>: an integer below \<open>2 ^ 53\<close> in absolute value. The ids
  leave room for \<open>n\<close> more when each is safe and stays safe with \<open>n\<close> added.
\<close>

definition safe_integer :: "int \<Rightarrow> bool" where
  "safe_integer n \<longleftrightarrow> - (2 ^ 53) < n \<and> n < 2 ^ 53"


definition json_members :: "json \<Rightarrow> (string \<times> json) list" where
  "json_members v = (case v of JObj ms \<Rightarrow> ms | _ \<Rightarrow> [])"

section \<open>Notions used in the proofs\<close>

text \<open>
  \<open>plain\<close>: a value without \<open>JDec\<close> (every value \<open>to_json\<close> builds); \<open>fuel\<close>: a
  depth that is enough for \<open>parse_value\<close> to read the value back; \<open>blank\<close>: a text of
  white space only.
\<close>

text \<open>What may follow a number literal.\<close>

definition ends_number :: "string \<Rightarrow> bool" where
  "ends_number rest =
     (case rest of
        [] \<Rightarrow> True
      | c # _ \<Rightarrow> \<not> is_digit c \<and> c \<noteq> CHR ''.'' \<and> c \<noteq> CHR ''e'' \<and> c \<noteq> CHR ''E'')"

fun plain :: "json \<Rightarrow> bool" where
  "plain (JDec s) = False"
| "plain (JArr xs) = (\<forall>x\<in>set xs. plain x)"
| "plain (JObj ms) = (\<forall>m\<in>set ms. plain (snd m))"
| "plain _ = True"

fun fuel :: "json \<Rightarrow> nat"
  and fuel_elems :: "json list \<Rightarrow> nat"
  and fuel_members :: "(string \<times> json) list \<Rightarrow> nat"
where
  "fuel (JArr xs) = Suc (fuel_elems xs)"
| "fuel (JObj ms) = Suc (fuel_members ms)"
| "fuel _ = 1"
| "fuel_elems [] = 0"
| "fuel_elems (x # xs) = Suc (max (fuel x) (fuel_elems xs))"
| "fuel_members [] = 0"
| "fuel_members ((k, v) # ms) = Suc (max (fuel v) (fuel_members ms))"

definition blank :: "string \<Rightarrow> bool" where
  "blank w \<longleftrightarrow> (\<forall>c\<in>set w. is_ws c)"

text \<open>The first character of a value's text.\<close>

definition opens_value :: "char \<Rightarrow> bool" where
  "opens_value c \<longleftrightarrow>
     c = dquote \<or> c = CHR ''['' \<or> c = CHR ''{'' \<or> c = CHR ''t'' \<or> c = CHR ''f'' \<or> c = CHR ''n''
       \<or> c = CHR ''-'' \<or> is_digit c"

section \<open>The depth bound of the parser\<close>

text \<open>
  Every parser returns a text shorter than the one it was given, and of two calls in a
  row at least one reads a character. So a depth above twice the length of the text
  changes nothing: the bound in \<open>JSON_parse\<close> never makes a text fail.
\<close>

lemma skip_ws_length: "length (skip_ws s) \<le> length s"
  by (simp add: skip_ws_def length_dropWhile_le)

lemma parse_chars_shorter: "parse_chars s = Some (str, r) \<Longrightarrow> length r < length s"
proof (induction "length s" arbitrary: s str r rule: less_induct)
  case less
  note IH = less.hyps
  show ?case
  proof (cases s)
    case Nil
    with less.prems show ?thesis by simp
  next
    case (Cons c cs)
    have step: "parse_chars t = Some (str', r) \<Longrightarrow> length t < length s \<Longrightarrow> length r < length s"
      for t str'
      using IH [of t str' r] by simp
    from less.prems Cons show ?thesis
      by (auto split: if_splits list.splits option.splits prod.splits
          dest!: step simp del: parse_chars.simps(2) simp add: parse_chars.simps(2) [of c cs])
  qed
qed

lemma parse_fraction_length: "parse_fraction s = Some r \<Longrightarrow> length r \<le> length s"
  by (auto simp: parse_fraction_def split: list.splits if_splits
      intro: le_trans [OF length_dropWhile_le])

lemma parse_exponent_length: "parse_exponent s = Some r \<Longrightarrow> length r \<le> length s"
  by (auto simp: parse_exponent_def Let_def split: list.splits if_splits
      intro: le_trans [OF length_dropWhile_le] le_SucI)

lemma dropWhile_shorter: "takeWhile P s \<noteq> [] \<Longrightarrow> length (dropWhile P s) < length s"
  by (cases s) (auto simp: le_imp_less_Suc length_dropWhile_le split: if_splits)

lemma parse_number_shorter: "parse_number s = Some (v, r) \<Longrightarrow> length r < length s"
proof -
  assume a: "parse_number s = Some (v, r)"
  define s1 where "s1 = (if (case s of [] \<Rightarrow> False | c # _ \<Rightarrow> c = CHR ''-'') then tl s else s)"
  have s1: "length s1 \<le> length s"
    by (simp add: s1_def)
  from a have ne: "takeWhile is_digit s1 \<noteq> []"
    by (auto simp: parse_number_def Let_def s1_def split: if_splits)
  from a obtain r2 where r2: "parse_fraction (dropWhile is_digit s1) = Some r2"
    and r3: "parse_exponent r2 = Some r"
    by (auto simp: parse_number_def Let_def s1_def split: if_splits option.splits)
  from dropWhile_shorter [OF ne] parse_fraction_length [OF r2] parse_exponent_length [OF r3] s1
  show ?thesis by simp
qed

lemma parse_literal_shorter: "parse_literal s = Some (v, r) \<Longrightarrow> length r < length s"
  by (cases s) (auto simp: parse_literal_def split: if_splits dest: parse_number_shorter)

lemma skip_ws_Cons_length: "skip_ws s = c # cs \<Longrightarrow> length cs < length s"
  using skip_ws_length [of s] by simp

lemma parse_shorter_all:
  "(\<forall>s v r. parse_value n s = Some (v, r) \<longrightarrow> length r < length s)
   \<and> (\<forall>s vs r. parse_elems n s = Some (vs, r) \<longrightarrow> length r < length s)
   \<and> (\<forall>s ms r. parse_members n s = Some (ms, r) \<longrightarrow> length r < length s)"
proof (induction n)
  case 0
  then show ?case by simp
next
  case (Suc n)
  then have v: "parse_value n s = Some (v, r) \<Longrightarrow> length r < length s"
    and e: "parse_elems n s = Some (vs, r) \<Longrightarrow> length r < length s"
    and m: "parse_members n s = Some (ms, r) \<Longrightarrow> length r < length s" for s v vs ms r
    by blast+
  have "length r < length s" if "parse_value (Suc n) s = Some (v, r)" for s v r
  proof -
    from that obtain c cs where c: "skip_ws s = c # cs"
      by (cases "skip_ws s") auto
    note l = skip_ws_Cons_length [OF c]
    from that c l show ?thesis
      by (auto split: if_splits option.splits list.splits
          dest!: parse_chars_shorter e m parse_literal_shorter skip_ws_Cons_length)
  qed
  moreover have "length r < length s" if "parse_elems (Suc n) s = Some (vs, r)" for s vs r
  proof -
    from that obtain x r1 where x: "parse_value n s = Some (x, r1)"
      by (auto split: option.splits)
    from that x obtain d ds where d: "skip_ws r1 = d # ds"
      by (cases "skip_ws r1") auto
    from that x d v [OF x] skip_ws_Cons_length [OF d] show ?thesis
      by (auto split: if_splits option.splits dest!: e)
  qed
  moreover have "length r < length s" if "parse_members (Suc n) s = Some (ms, r)" for s ms r
  proof -
    from that obtain c cs where c: "skip_ws s = c # cs"
      by (cases "skip_ws s") auto
    from that c obtain k r1 where k: "parse_chars cs = Some (k, r1)"
      by (auto split: if_splits option.splits)
    from that c k obtain d ds where d: "skip_ws r1 = d # ds"
      by (cases "skip_ws r1") (auto split: if_splits)
    from that c k d obtain x r2 where x: "parse_value n ds = Some (x, r2)"
      by (auto split: if_splits option.splits)
    from that c k d x obtain e' es where e': "skip_ws r2 = e' # es"
      by (cases "skip_ws r2") (auto split: if_splits)
    from that c k d x e' skip_ws_Cons_length [OF c] parse_chars_shorter [OF k]
      skip_ws_Cons_length [OF d] v [OF x] skip_ws_Cons_length [OF e']
    show ?thesis
      by (auto split: if_splits option.splits dest!: m)
  qed
  ultimately show ?case by blast
qed

lemmas parse_value_shorter = parse_shorter_all [THEN conjunct1, rule_format]
lemmas parse_elems_shorter = parse_shorter_all [THEN conjunct2, THEN conjunct1, rule_format]
lemmas parse_members_shorter = parse_shorter_all [THEN conjunct2, THEN conjunct2, rule_format]

lemma parse_depth_step:
  "(\<forall>s. 2 * length s < n \<longrightarrow> parse_value (Suc n) s = parse_value n s)
   \<and> (\<forall>s. 2 * length s + 1 < n \<longrightarrow> parse_elems (Suc n) s = parse_elems n s)
   \<and> (\<forall>s. 2 * length s + 1 < n \<longrightarrow> parse_members (Suc n) s = parse_members n s)"
proof (induction n)
  case 0
  then show ?case by simp
next
  case (Suc n)
  then have v: "2 * length s < n \<Longrightarrow> parse_value (Suc n) s = parse_value n s"
    and e: "2 * length s + 1 < n \<Longrightarrow> parse_elems (Suc n) s = parse_elems n s"
    and m: "2 * length s + 1 < n \<Longrightarrow> parse_members (Suc n) s = parse_members n s" for s
    by blast+
  have "parse_value (Suc (Suc n)) s = parse_value (Suc n) s" if "2 * length s < Suc n" for s
  proof (cases "skip_ws s")
    case Nil
    then show ?thesis by simp
  next
    case (Cons c cs)
    from skip_ws_Cons_length [OF Cons] that have "2 * length cs + 1 < n"
      by simp
    then have em: "parse_elems (Suc n) cs = parse_elems n cs"
      "parse_members (Suc n) cs = parse_members n cs"
      by (rule e, rule m)
    show ?thesis
      unfolding parse_value.simps(2) [of "Suc n" s] parse_value.simps(2) [of n s] Cons
        list.case em
      by (rule refl)
  qed
  moreover have "parse_elems (Suc (Suc n)) s = parse_elems (Suc n) s"
    if "2 * length s + 1 < Suc n" for s
  proof -
    from that have a: "parse_value (Suc n) s = parse_value n s"
      by (intro v) simp
    note u = parse_elems.simps(2) [of "Suc n" s] parse_elems.simps(2) [of n s]
    show ?thesis
    proof (cases "parse_value n s")
      case None
      show ?thesis unfolding u a None option.case prod.case list.case by (rule refl)
    next
      case (Some p)
      obtain x r where p: "p = (x, r)" by (cases p)
      show ?thesis
      proof (cases "skip_ws r")
        case Nil
        show ?thesis unfolding u a Some p Nil option.case prod.case list.case by (rule refl)
      next
        case (Cons d ds)
        from parse_value_shorter [of n s x r] Some p skip_ws_Cons_length [OF Cons] that
        have "2 * length ds + 1 < n"
          by simp
        then have ee: "parse_elems (Suc n) ds = parse_elems n ds"
          by (rule e)
        show ?thesis
          unfolding u a Some p Cons ee option.case prod.case list.case by (rule refl)
      qed
    qed
  qed
  moreover have "parse_members (Suc (Suc n)) s = parse_members (Suc n) s"
    if "2 * length s + 1 < Suc n" for s
  proof (cases "skip_ws s")
    case Nil
    then show ?thesis by simp
  next
    case c: (Cons c cs)
    note u = parse_members.simps(2) [of "Suc n" s] parse_members.simps(2) [of n s]
    show ?thesis
    proof (cases "parse_chars cs")
      case None
      show ?thesis unfolding u c None option.case prod.case list.case by (rule refl)
    next
      case (Some p)
      obtain k r where p: "p = (k, r)" by (cases p)
      show ?thesis
      proof (cases "skip_ws r")
        case Nil
        show ?thesis unfolding u c Some p Nil option.case prod.case list.case by (rule refl)
      next
        case d: (Cons d ds)
        from skip_ws_Cons_length [OF c] parse_chars_shorter [of cs k r] Some p
          skip_ws_Cons_length [OF d] that
        have l: "2 * length ds + 4 < n"
          by simp
        then have a: "parse_value (Suc n) ds = parse_value n ds"
          by (intro v) simp
        show ?thesis
        proof (cases "parse_value n ds")
          case None
          show ?thesis unfolding u c Some p d a None option.case prod.case list.case by (rule refl)
        next
          case v': (Some q)
          obtain x r' where q: "q = (x, r')" by (cases q)
          show ?thesis
          proof (cases "skip_ws r'")
            case Nil
            show ?thesis unfolding u c Some p d a v' q Nil option.case prod.case list.case by (rule refl)
          next
            case e': (Cons e' es)
            from parse_value_shorter [of n ds x r'] v' q skip_ws_Cons_length [OF e'] l
            have "2 * length es + 1 < n"
              by simp
            then have mm: "parse_members (Suc n) es = parse_members n es"
              by (rule m)
            show ?thesis
              unfolding u c Some p d a v' q e' mm option.case prod.case list.case
              by (rule refl)
          qed
        qed
      qed
    qed
  qed
  ultimately show ?case by blast
qed

lemma parse_value_depth:
  "2 * length s + 2 \<le> n \<Longrightarrow> parse_value n s = parse_value (2 * length s + 2) s"
proof (induction n)
  case 0
  then show ?case by simp
next
  case (Suc n)
  show ?case
  proof (cases "2 * length s + 2 \<le> n")
    case True
    then have "parse_value (Suc n) s = parse_value n s"
      using parse_depth_step [of n] by (simp del: parse_value.simps)
    with Suc.IH [OF True] show ?thesis by (simp del: parse_value.simps)
  next
    case False
    with Suc.prems have "Suc n = 2 * length s + 2" by simp
    then show ?thesis by simp
  qed
qed

section \<open>Reading back what was written\<close>

lemma lt16_cases:
  "d < 16 \<Longrightarrow> d \<in> {0::nat, 1, 2, 3, 4, 5, 6, 7, 8, 9, 10, 11, 12, 13, 14, 15}"
  by simp arith

lemma hex_val_digit_char: "d < 16 \<Longrightarrow> hex_val (digit_char d) = Some d"
  by (drule lt16_cases) (auto simp: hex_val_def digit_char_def)

lemma is_digit_digit_char: "d < 10 \<Longrightarrow> is_digit (digit_char d)"
  using lt16_cases [of d] by (auto simp: is_digit_def digit_char_def)

lemma digit_val_digit_char: "d < 10 \<Longrightarrow> digit_val (digit_char d) = d"
  using lt16_cases [of d] by (auto simp: digit_val_def digit_char_def)

lemma digit_char_zero: "d < 10 \<Longrightarrow> digit_char d = CHR ''0'' \<longleftrightarrow> d = 0"
  using lt16_cases [of d] by (auto simp: digit_char_def)

lemma digits_not_Nil: "digits n \<noteq> []"
  by (subst digits.simps) simp

lemma digits_all_digit: "c \<in> set (digits n) \<Longrightarrow> is_digit c"
proof (induction n arbitrary: c rule: digits.induct)
  case (1 n)
  show ?case
  proof (cases "n < 10")
    case True
    with "1.prems" show ?thesis
      by (subst (asm) digits.simps) (simp add: is_digit_digit_char)
  next
    case False
    with "1.prems" have "c \<in> set (digits (n div 10)) \<or> c = digit_char (n mod 10)"
      by (subst (asm) digits.simps) auto
    with False "1.IH" show ?thesis
      by (auto simp: is_digit_digit_char)
  qed
qed

lemma digits_val_snoc: "digits_val (ds @ [c]) = 10 * digits_val ds + digit_val c"
  by (simp add: digits_val_def)

lemma digits_val_digits: "digits_val (digits n) = n"
proof (induction n rule: digits.induct)
  case (1 n)
  show ?case
  proof (cases "n < 10")
    case True
    then show ?thesis
      by (subst digits.simps) (simp add: digits_val_def digit_val_digit_char)
  next
    case False
    with "1.IH" show ?thesis
      by (subst digits.simps) (simp add: digits_val_snoc digit_val_digit_char)
  qed
qed

lemma hd_digits: "0 < n \<Longrightarrow> hd (digits n) \<noteq> CHR ''0''"
proof (induction n rule: digits.induct)
  case (1 n)
  show ?case
  proof (cases "n < 10")
    case True
    with "1.prems" show ?thesis
      by (subst digits.simps) (simp add: digit_char_zero)
  next
    case False
    then have "0 < n div 10" by simp
    with False "1.IH" have "hd (digits (n div 10)) \<noteq> CHR ''0''" by simp
    with False show ?thesis
      by (subst digits.simps) (simp add: digits_not_Nil)
  qed
qed

lemma digits_zero: "digits 0 = ''0''"
  by (subst digits.simps) (simp add: digit_char_def)

lemma no_leading_zero: "\<not> (1 < length (digits n) \<and> hd (digits n) = CHR ''0'')"
  by (cases "n = 0") (auto simp: digits_zero dest: hd_digits)

lemma takeWhile_digits:
  "ends_number rest \<Longrightarrow> takeWhile is_digit (digits n @ rest) = digits n"
  by (cases rest) (auto simp: ends_number_def takeWhile_append digits_all_digit
      takeWhile_eq_all_conv [THEN iffD2])

lemma dropWhile_digits:
  "ends_number rest \<Longrightarrow> dropWhile is_digit (digits n @ rest) = rest"
  by (cases rest) (auto simp: ends_number_def dropWhile_append digits_all_digit
      dropWhile_eq_Nil_conv [THEN iffD2])

lemma parse_fraction_end: "ends_number rest \<Longrightarrow> parse_fraction rest = Some rest"
  by (cases rest) (auto simp: ends_number_def parse_fraction_def)

lemma parse_exponent_end: "ends_number rest \<Longrightarrow> parse_exponent rest = Some rest"
  by (cases rest) (auto simp: ends_number_def parse_exponent_def)

lemma hd_digits_is_digit: "is_digit (hd (digits n))"
  using digits_not_Nil [of n] digits_all_digit [of "hd (digits n)" n] by simp

lemma digits_Cons: "\<exists>c cs. digits n = c # cs \<and> is_digit c"
  using digits_not_Nil [of n] hd_digits_is_digit [of n] by (cases "digits n") auto

lemma parse_number_nat:
  assumes "ends_number rest"
  shows "parse_number (digits n @ rest) = Some (JNum (int n), rest)"
proof -
  obtain c cs where d: "digits n = c # cs" and c: "is_digit c"
    using digits_Cons by blast
  from c have m: "c \<noteq> CHR ''-''"
    by (auto simp: is_digit_def)
  have tw: "takeWhile is_digit (c # cs @ rest) = c # cs"
    and dw: "dropWhile is_digit (c # cs @ rest) = rest"
    using takeWhile_digits [OF assms, of n] dropWhile_digits [OF assms, of n] d by simp_all
  have z: "\<not> (1 < length (c # cs) \<and> hd (c # cs) = CHR ''0'')"
    using no_leading_zero [of n] d by simp
  have v: "digits_val (c # cs) = n"
    using digits_val_digits [of n] d by simp
  show ?thesis
    unfolding parse_number_def d
    using m z v
    by (simp add: Let_def parse_fraction_end [OF assms] parse_exponent_end [OF assms]
        del: takeWhile.simps dropWhile.simps add: tw dw)
qed

lemma parse_number_neg:
  assumes "ends_number rest"
  shows "parse_number (CHR ''-'' # digits n @ rest) = Some (JNum (- int n), rest)"
proof -
  obtain c cs where d: "digits n = c # cs" and c: "is_digit c"
    using digits_Cons by blast
  have tw: "takeWhile is_digit (c # cs @ rest) = c # cs"
    and dw: "dropWhile is_digit (c # cs @ rest) = rest"
    using takeWhile_digits [OF assms, of n] dropWhile_digits [OF assms, of n] d by simp_all
  have z: "\<not> (1 < length (c # cs) \<and> hd (c # cs) = CHR ''0'')"
    using no_leading_zero [of n] d by simp
  have v: "digits_val (c # cs) = n"
    using digits_val_digits [of n] d by simp
  show ?thesis
    unfolding parse_number_def d
    using z v
    by (simp add: Let_def parse_fraction_end [OF assms] parse_exponent_end [OF assms]
        del: takeWhile.simps dropWhile.simps add: tw dw)
qed

lemma parse_number_show_int:
  "ends_number rest \<Longrightarrow> parse_number (show_int i @ rest) = Some (JNum i, rest)"
  by (simp add: show_int_def parse_number_neg parse_number_nat)

lemma show_int_Cons: "\<exists>c cs. show_int i = c # cs \<and> (is_digit c \<or> c = CHR ''-'')"
  using digits_Cons [of "nat i"] by (auto simp: show_int_def)

lemma parse_literal_show_int:
  assumes "ends_number rest"
  shows "parse_literal (show_int i @ rest) = Some (JNum i, rest)"
proof -
  obtain c cs where s: "show_int i = c # cs" and c: "is_digit c \<or> c = CHR ''-''"
    using show_int_Cons by blast
  from c have "c \<noteq> CHR ''t''" "c \<noteq> CHR ''f''" "c \<noteq> CHR ''n''"
    by (auto simp: is_digit_def)
  then have "parse_literal (c # cs @ rest) = parse_number (c # cs @ rest)"
    by (simp add: parse_literal_def)
  with parse_number_show_int [OF assms, of i] s show ?thesis
    by simp
qed

lemma hex4_control:
  "n < 32 \<Longrightarrow> hex4 (CHR ''0'') (CHR ''0'') (digit_char (n div 16)) (digit_char (n mod 16)) = Some n"
proof -
  assume n: "n < 32"
  then have "n div 16 < 16" by simp
  then have a: "hex_val (digit_char (n div 16)) = Some (n div 16)"
    by (rule hex_val_digit_char)
  have b: "hex_val (digit_char (n mod 16)) = Some (n mod 16)"
    by (rule hex_val_digit_char) simp
  have z: "hex_val (CHR ''0'') = Some 0"
    by (simp add: hex_val_def)
  show ?thesis
    by (simp add: hex4_def a b z)
qed

lemma parse_chars_escape:
  "parse_chars (escape_char c @ t) =
     (case parse_chars t of None \<Rightarrow> None | Some (s, r) \<Rightarrow> Some (c # s, r))"
proof -
  consider (table) "c = CHR 0x08 \<or> c = CHR 0x09 \<or> c = CHR 0x0A \<or> c = CHR 0x0C \<or> c = CHR 0x0D
      \<or> c = dquote \<or> c = bslash"
    | (control) "\<not> (c = CHR 0x08 \<or> c = CHR 0x09 \<or> c = CHR 0x0A \<or> c = CHR 0x0C \<or> c = CHR 0x0D
      \<or> c = dquote \<or> c = bslash)" "of_char c < (32::nat)"
    | (raw) "\<not> (c = CHR 0x08 \<or> c = CHR 0x09 \<or> c = CHR 0x0A \<or> c = CHR 0x0C \<or> c = CHR 0x0D
      \<or> c = dquote \<or> c = bslash)" "\<not> of_char c < (32::nat)"
    by blast
  then show ?thesis
  proof cases
    case table
    then show ?thesis
      by (auto simp: escape_char_def unescape_def dquote_def bslash_def split: option.splits)
  next
    case control
    have u: "utf8 (of_char c) = [c]"
      using control(2) by (simp add: utf8_def)
    show ?thesis
      using control
      by (simp add: escape_char_def hex4_control u dquote_def bslash_def split: option.splits)
  next
    case raw
    then show ?thesis
      by (simp add: escape_char_def)
  qed
qed

lemma parse_chars_escaped:
  "parse_chars (concat (map escape_char s) @ dquote # rest) = Some (s, rest)"
  by (induction s) (simp_all add: parse_chars_escape)

lemma parse_chars_quote: "parse_chars (tl (quote s) @ rest) = Some (s, rest)"
  by (simp add: quote_def parse_chars_escaped)

lemma blank_simps [simp]:
  "blank []" "blank (c # w) \<longleftrightarrow> is_ws c \<and> blank w" "blank (v @ w) \<longleftrightarrow> blank v \<and> blank w"
  by (auto simp: blank_def)

lemma blank_gap [simp]: "blank gap"
  by (simp add: gap_def is_ws_def)

lemma is_ws_newline [simp]: "is_ws newline"
  by (simp add: is_ws_def newline_def)

lemma skip_ws_blank: "blank w \<Longrightarrow> skip_ws (w @ s) = skip_ws s"
  by (simp add: skip_ws_def blank_def dropWhile_append)

lemma skip_ws_Cons: "skip_ws (c # s) = (if is_ws c then skip_ws s else c # s)"
  by (simp add: skip_ws_def)

lemma parse_value_blank: "blank w \<Longrightarrow> parse_value n (w @ s) = parse_value n s"
  by (cases n) (simp_all add: skip_ws_blank)

lemma parse_members_blank: "blank w \<Longrightarrow> parse_members n (w @ s) = parse_members n s"
  by (cases n) (simp_all add: skip_ws_blank)

lemma parse_elems_blank: "blank w \<Longrightarrow> parse_elems n (w @ s) = parse_elems n s"
  by (cases n) (simp_all add: parse_value_blank)

lemma stringify_value_Cons:
  "plain j \<Longrightarrow> \<exists>c cs. stringify_value ind j = c # cs \<and> opens_value c"
proof (cases j)
  case (JNum i)
  then show ?thesis
    using show_int_Cons [of i] by (auto simp: opens_value_def)
next
  case (JArr xs)
  then show ?thesis by (cases xs) (auto simp: opens_value_def)
next
  case (JObj ms)
  then show ?thesis by (cases ms) (auto simp: opens_value_def)
qed (auto simp: opens_value_def quote_def)

lemma opens_value_not:
  "opens_value c \<Longrightarrow> \<not> is_ws c \<and> c \<noteq> CHR '']'' \<and> c \<noteq> CHR ''}''"
  by (auto simp: opens_value_def is_ws_def is_digit_def dquote_def)

lemma parse_value_JNum:
  assumes "ends_number rest"
  shows "parse_value (Suc n) (show_int i @ rest) = Some (JNum i, rest)"
proof -
  obtain c cs where s: "show_int i = c # cs" and c: "is_digit c \<or> c = CHR ''-''"
    using show_int_Cons by blast
  from c have "\<not> is_ws c" "c \<noteq> dquote" "c \<noteq> CHR ''[''" "c \<noteq> CHR ''{''"
    by (auto simp: is_digit_def is_ws_def dquote_def)
  then have "parse_value (Suc n) (c # cs @ rest) = parse_literal (c # cs @ rest)"
    by (simp add: skip_ws_Cons)
  with parse_literal_show_int [OF assms, of i] s show ?thesis
    by simp
qed

lemma parse_value_JStr: "parse_value (Suc n) (quote s @ rest) = Some (JStr s, rest)"
  by (simp add: quote_def skip_ws_Cons is_ws_def dquote_def
      parse_chars_escaped [unfolded dquote_def])

lemma ends_number_simps [simp]:
  "ends_number (CHR '','' # s)" "ends_number (newline # s)" "ends_number []"
  by (simp_all add: ends_number_def is_digit_def newline_def)

lemma parse_elems_last:
  "parse_value m s = Some (x, r) \<Longrightarrow> skip_ws r = CHR '']'' # rest \<Longrightarrow>
     parse_elems (Suc m) s = Some ([x], rest)"
  by simp

lemma parse_elems_more:
  "parse_value m s = Some (x, r) \<Longrightarrow> skip_ws r = CHR '','' # r' \<Longrightarrow>
     parse_elems m r' = Some (xs, rest) \<Longrightarrow> parse_elems (Suc m) s = Some (x # xs, rest)"
  by simp

lemma parse_members_last:
  "skip_ws s = dquote # cs \<Longrightarrow> parse_chars cs = Some (k, r) \<Longrightarrow> skip_ws r = CHR '':'' # ds \<Longrightarrow>
     parse_value m ds = Some (v, r') \<Longrightarrow> skip_ws r' = CHR ''}'' # rest \<Longrightarrow>
     parse_members (Suc m) s = Some ([(k, v)], rest)"
  by simp

lemma parse_members_more:
  "skip_ws s = dquote # cs \<Longrightarrow> parse_chars cs = Some (k, r) \<Longrightarrow> skip_ws r = CHR '':'' # ds \<Longrightarrow>
     parse_value m ds = Some (v, r') \<Longrightarrow> skip_ws r' = CHR '','' # r'' \<Longrightarrow>
     parse_members m r'' = Some (ms, rest) \<Longrightarrow>
     parse_members (Suc m) s = Some ((k, v) # ms, rest)"
  by simp

lemma skip_ws_quote: "skip_ws (quote k @ s) = dquote # tl (quote k) @ s"
  by (simp add: quote_def skip_ws_Cons is_ws_def dquote_def)

lemma is_ws_simps [simp]:
  "\<not> is_ws dquote" "\<not> is_ws (CHR ''['')" "\<not> is_ws (CHR '']'')" "\<not> is_ws (CHR ''{'')"
  "\<not> is_ws (CHR ''}'')" "\<not> is_ws (CHR '','')" "\<not> is_ws (CHR '':'')" "is_ws (CHR '' '')"
  by (simp_all add: is_ws_def dquote_def)

lemma dquote_simps [simp]:
  "CHR ''['' \<noteq> dquote" "CHR ''{'' \<noteq> dquote" "dquote \<noteq> CHR ''[''" "dquote \<noteq> CHR ''{''"
  "dquote \<noteq> CHR ''}''" "dquote \<noteq> CHR '']''"
  by (simp_all add: dquote_def)

lemma skip_ws_closing:
  "blank ind' \<Longrightarrow> \<not> is_ws c \<Longrightarrow> skip_ws (newline # ind' @ c # rest) = c # rest"
  using skip_ws_blank [of "newline # ind'" "c # rest"] by (simp add: skip_ws_Cons)

lemma parse_stringify:
  "plain j \<Longrightarrow> blank ind \<Longrightarrow> fuel j \<le> n \<Longrightarrow> ends_number rest \<Longrightarrow>
     parse_value n (stringify_value ind j @ rest) = Some (j, rest)"
  "xs \<noteq> [] \<Longrightarrow> \<forall>x\<in>set xs. plain x \<Longrightarrow> blank ind \<Longrightarrow> fuel_elems xs \<le> n \<Longrightarrow> blank ind' \<Longrightarrow>
     parse_elems n (stringify_elems ind xs @ newline # ind' @ CHR '']'' # rest) = Some (xs, rest)"
  "ms \<noteq> [] \<Longrightarrow> \<forall>m\<in>set ms. plain (snd m) \<Longrightarrow> blank ind \<Longrightarrow> fuel_members ms \<le> n \<Longrightarrow> blank ind' \<Longrightarrow>
     parse_members n (stringify_members ind ms @ newline # ind' @ CHR ''}'' # rest) = Some (ms, rest)"
proof (induction ind j and ind xs and ind ms arbitrary: n rest and n ind' rest and n ind' rest
    rule: stringify_value_stringify_elems_stringify_members.induct)
  case (1 ind)
  then show ?case
    by (cases n) (simp_all add: skip_ws_Cons is_ws_def dquote_def parse_literal_def)
next
  case (2 ind b)
  then show ?case
    by (cases n) (simp_all add: skip_ws_Cons is_ws_def dquote_def parse_literal_def)
next
  case (3 ind i)
  then show ?case by (cases n) (simp_all add: parse_value_JNum del: parse_value.simps)
next
  case (4 ind s)
  then show ?case by simp
next
  case (5 ind s)
  then show ?case by (cases n) (simp_all add: parse_value_JStr del: parse_value.simps)
next
  case (6 ind)
  then show ?case
    by (cases n) (simp_all add: skip_ws_Cons)
next
  case (7 ind x xs)
  from "7.prems" obtain m where n: "n = Suc m" and m: "fuel_elems (x # xs) \<le> m"
    by (cases n) auto
  obtain c cs where c: "stringify_value (ind @ gap) x = c # cs" and o: "opens_value c"
    using stringify_value_Cons [of x "ind @ gap"] "7.prems"(1) by auto
  have e: "\<exists>t. stringify_elems (ind @ gap) (x # xs) = c # t"
    using c by (cases xs) auto
  then obtain t where t: "stringify_elems (ind @ gap) (x # xs) = c # t" ..
  have sk: "skip_ws (newline # (ind @ gap) @ c # t @ newline # ind @ CHR '']'' # rest)
      = c # t @ newline # ind @ CHR '']'' # rest"
    using opens_value_not [OF o] "7.prems"(2)
    by (simp add: skip_ws_Cons skip_ws_blank [of "ind @ gap", simplified])
  have "parse_elems m (stringify_elems (ind @ gap) (x # xs) @ newline # ind @ CHR '']'' # rest)
      = Some (x # xs, rest)"
    using "7.prems" m by (intro "7.IH") simp_all
  then have pe: "parse_elems m (newline # (ind @ gap) @ c # t @ newline # ind @ CHR '']'' # rest)
      = Some (x # xs, rest)"
    using parse_elems_blank [of "newline # ind @ gap" m] "7.prems"(2) t by simp
  show ?case
    using opens_value_not [OF o] sk pe
    by (simp add: n t skip_ws_Cons)
next
  case (8 ind)
  then show ?case
    by (cases n) (simp_all add: skip_ws_Cons)
next
  case (9 ind m ms)
  from "9.prems" obtain n' where n: "n = Suc n'" and n': "fuel_members (m # ms) \<le> n'"
    by (cases n) auto
  obtain t where t: "stringify_members (ind @ gap) (m # ms) = dquote # t"
    by (cases m; cases ms) (auto simp: quote_def)
  have sk: "skip_ws (newline # (ind @ gap) @ dquote # t @ newline # ind @ CHR ''}'' # rest)
      = dquote # t @ newline # ind @ CHR ''}'' # rest"
    using "9.prems"(2)
    by (simp add: skip_ws_Cons skip_ws_blank [of "ind @ gap", simplified])
  have "parse_members n' (stringify_members (ind @ gap) (m # ms) @ newline # ind @ CHR ''}'' # rest)
      = Some (m # ms, rest)"
    using "9.prems" n' by (intro "9.IH") simp_all
  then have pe: "parse_members n' (newline # (ind @ gap) @ dquote # t @ newline # ind @ CHR ''}'' # rest)
      = Some (m # ms, rest)"
    using parse_members_blank [of "newline # ind @ gap" n'] "9.prems"(2) t by simp
  show ?case
    using sk pe
    by (simp add: n t skip_ws_Cons)
next
  case (10 ind)
  then show ?case by simp
next
  case (11 ind x)
  from "11.prems" obtain m where n: "n = Suc m" and m: "fuel x \<le> m"
    by (cases n) auto
  have "parse_value m (stringify_value ind x @ newline # ind' @ CHR '']'' # rest)
      = Some (x, newline # ind' @ CHR '']'' # rest)"
    using "11.prems" m by (intro "11.IH") simp_all
  moreover have "skip_ws (newline # ind' @ CHR '']'' # rest) = CHR '']'' # rest"
    using "11.prems" by (intro skip_ws_closing) simp_all
  ultimately show ?case
    unfolding n stringify_elems.simps by (rule parse_elems_last)
next
  case (12 ind x y ys)
  from "12.prems" obtain m where n: "n = Suc m" and m: "fuel x \<le> m" "fuel_elems (y # ys) \<le> m"
    by (cases n) auto
  let ?tail = "stringify_elems ind (y # ys) @ newline # ind' @ CHR '']'' # rest"
  have "parse_value m (stringify_value ind x @ CHR '','' # newline # ind @ ?tail)
      = Some (x, CHR '','' # newline # ind @ ?tail)"
    using "12.prems" m by (intro "12.IH") simp_all
  moreover have "skip_ws (CHR '','' # newline # ind @ ?tail) = CHR '','' # newline # ind @ ?tail"
    by (simp add: skip_ws_Cons)
  moreover have "parse_elems m (newline # ind @ ?tail) = Some (y # ys, rest)"
  proof -
    have "parse_elems m ?tail = Some (y # ys, rest)"
      using "12.prems" m by (intro "12.IH") simp_all
    then show ?thesis
      using parse_elems_blank [of "newline # ind" m ?tail] "12.prems" by simp
  qed
  ultimately have "parse_elems (Suc m) (stringify_value ind x @ CHR '','' # newline # ind @ ?tail)
      = Some (x # y # ys, rest)"
    by (rule parse_elems_more)
  then show ?case
    by (simp add: n)
next
  case (13 ind)
  then show ?case by simp
next
  case (14 ind k v)
  from "14.prems" obtain m where n: "n = Suc m" and m: "fuel v \<le> m"
    by (cases n) auto
  let ?close = "newline # ind' @ CHR ''}'' # rest"
  let ?s = "quote k @ CHR '':'' # CHR '' '' # stringify_value ind v @ ?close"
  have 1: "skip_ws ?s = dquote # tl (quote k) @ CHR '':'' # CHR '' '' # stringify_value ind v @ ?close"
    by (rule skip_ws_quote)
  have 2: "parse_chars (tl (quote k) @ CHR '':'' # CHR '' '' # stringify_value ind v @ ?close)
      = Some (k, CHR '':'' # CHR '' '' # stringify_value ind v @ ?close)"
    by (rule parse_chars_quote)
  have 3: "skip_ws (CHR '':'' # CHR '' '' # stringify_value ind v @ ?close)
      = CHR '':'' # CHR '' '' # stringify_value ind v @ ?close"
    by (simp add: skip_ws_Cons)
  have 4: "parse_value m (CHR '' '' # stringify_value ind v @ ?close) = Some (v, ?close)"
  proof -
    have "parse_value m (stringify_value ind v @ ?close) = Some (v, ?close)"
      using "14.prems" m by (intro "14.IH") simp_all
    then show ?thesis
      using parse_value_blank [of "'' ''" m] by simp
  qed
  have 5: "skip_ws ?close = CHR ''}'' # rest"
    using "14.prems" by (intro skip_ws_closing) simp_all
  have "parse_members (Suc m) ?s = Some ([(k, v)], rest)"
    using 1 2 3 4 5 by (rule parse_members_last)
  then show ?case
    by (simp add: n)
next
  case (15 ind k v m ms)
  from "15.prems" obtain n' where n: "n = Suc n'"
    and n': "fuel v \<le> n'" "fuel_members (m # ms) \<le> n'"
    by (cases n) auto
  let ?tail = "stringify_members ind (m # ms) @ newline # ind' @ CHR ''}'' # rest"
  let ?more = "CHR '','' # newline # ind @ ?tail"
  let ?s = "quote k @ CHR '':'' # CHR '' '' # stringify_value ind v @ ?more"
  have 1: "skip_ws ?s = dquote # tl (quote k) @ CHR '':'' # CHR '' '' # stringify_value ind v @ ?more"
    by (rule skip_ws_quote)
  have 2: "parse_chars (tl (quote k) @ CHR '':'' # CHR '' '' # stringify_value ind v @ ?more)
      = Some (k, CHR '':'' # CHR '' '' # stringify_value ind v @ ?more)"
    by (rule parse_chars_quote)
  have 3: "skip_ws (CHR '':'' # CHR '' '' # stringify_value ind v @ ?more)
      = CHR '':'' # CHR '' '' # stringify_value ind v @ ?more"
    by (simp add: skip_ws_Cons)
  have 4: "parse_value n' (CHR '' '' # stringify_value ind v @ ?more) = Some (v, ?more)"
  proof -
    have "parse_value n' (stringify_value ind v @ ?more) = Some (v, ?more)"
      using "15.prems" n' by (intro "15.IH") simp_all
    then show ?thesis
      using parse_value_blank [of "'' ''" n'] by simp
  qed
  have 5: "skip_ws ?more = CHR '','' # newline # ind @ ?tail"
    by (simp add: skip_ws_Cons)
  have 6: "parse_members n' (newline # ind @ ?tail) = Some (m # ms, rest)"
  proof -
    have "parse_members n' ?tail = Some (m # ms, rest)"
      using "15.prems" n' by (intro "15.IH") simp_all
    then show ?thesis
      using parse_members_blank [of "newline # ind" n' ?tail] "15.prems" by simp
  qed
  have "parse_members (Suc n') ?s = Some ((k, v) # m # ms, rest)"
    using 1 2 3 4 5 6 by (rule parse_members_more)
  then show ?case
    by (simp add: n)
qed

lemma fuel_le_length:
  "plain j \<Longrightarrow> fuel j \<le> length (stringify_value ind j)"
  "\<forall>x\<in>set xs. plain x \<Longrightarrow> fuel_elems xs \<le> Suc (length (stringify_elems ind xs))"
  "\<forall>m\<in>set ms. plain (snd m) \<Longrightarrow> fuel_members ms \<le> Suc (length (stringify_members ind ms))"
proof (induction ind j and ind xs and ind ms
    rule: stringify_value_stringify_elems_stringify_members.induct)
  case (3 ind i)
  then show ?case
    using show_int_Cons [of i] by auto
next
  case (5 ind s)
  then show ?case by (simp add: quote_def)
qed (auto simp: gap_def)

lemma JSON_parse_stringify_value:
  assumes "plain j"
  shows "JSON_parse (stringify_value [] j) = Inr j"
proof -
  have "fuel j \<le> 2 * length (stringify_value [] j) + 2"
    using fuel_le_length(1) [OF assms, of "[]"] by simp
  then have "parse_value (2 * length (stringify_value [] j) + 2) (stringify_value [] j @ [])
      = Some (j, [])"
    using assms by (intro parse_stringify(1)) simp_all
  then show ?thesis
    by (simp add: JSON_parse_def skip_ws_def)
qed

lemma plain_to_json: "plain (to_json p)"
  by (auto simp: to_json_def obj_member_def split: option.splits)

lemma as_proverb_to_json: "as_proverb (to_json p) = Some p"
  by (cases p)
    (auto simp: as_proverb_def to_json_def obj_member_def text_field_def field_names_def
      split: option.splits)

lemma those_map_Some: "(\<And>x. f x = Some (g x)) \<Longrightarrow> those (map f xs) = Some (map g xs)"
  by (induction xs) simp_all

lemma as_proverbs_to_json: "as_proverbs (JArr (map to_json ps)) = Some ps"
  using those_map_Some [of "as_proverb \<circ> to_json" id ps]
  by (simp add: as_proverbs_def as_proverb_to_json)

lemma JSON_parse_stringify: "JSON_parse (JSON_stringify ps) = Inr (JArr (map to_json ps))"
  unfolding JSON_stringify_def
  by (rule JSON_parse_stringify_value) (simp add: plain_to_json)

lemma read_all_stringify:
  "read_all (Some (JSON_stringify ps)) = Some (Some (JSON_stringify ps), Inr ps)"
  by (simp add: read_all_def readProverbs_def readFile_def JSON_parse_stringify
      as_proverbs_to_json)

section \<open>The store, read and written\<close>

lemma JSON_stringify_Nil: "JSON_stringify [] = ''[]''"
  by (simp add: JSON_stringify_def)

lemma JSON_parse_error: "JSON_parse data = Inl e \<Longrightarrow> e = SyntaxError"
  by (auto simp: JSON_parse_def split: option.splits if_splits)

lemma readProverbs_None: "readProverbs None = (Some ''[]'', Inr (JArr []))"
  by (simp add: readProverbs_def readFile_def writeFile_def)

lemma readProverbs_Some:
  "readProverbs (Some data) = (Some data, JSON_parse data)"
  by (cases "JSON_parse data") (auto simp: readProverbs_def readFile_def dest: JSON_parse_error)

lemma read_all_None: "read_all None = Some (Some ''[]'', Inr [])"
  by (simp add: read_all_def readProverbs_None as_proverbs_def)

lemma read_all_Some_file: "read_all (Some data) = Some (fs', r) \<Longrightarrow> fs' = Some data"
  by (auto simp: read_all_def readProverbs_Some split: sum.splits option.splits)

lemma read_all_written: "read_all (writeProverbs fs ps) = Some (writeProverbs fs ps, Inr ps)"
  by (simp add: writeProverbs_def writeFile_def read_all_stringify)

lemma read_all_file:
  "read_all fs = Some (fs', r) \<Longrightarrow> fs' = (case fs of None \<Rightarrow> Some ''[]'' | Some data \<Rightarrow> Some data)"
  by (cases fs) (auto simp: read_all_None dest: read_all_Some_file)

lemma read_all_again:
  assumes "read_all fs = Some (fs', Inr ps)"
  shows "read_all fs' = Some (fs', Inr ps)"
proof (cases fs)
  case None
  with assms have "fs' = Some (JSON_stringify [])" "ps = []"
    by (simp_all add: read_all_None JSON_stringify_Nil)
  then show ?thesis
    by (simp add: read_all_stringify)
next
  case (Some data)
  with assms show ?thesis
    using read_all_Some_file [of data fs' "Inr ps"] by simp
qed

lemma bit_length_le: "n < 2 ^ k \<Longrightarrow> bit_length n \<le> k"
proof (induction k arbitrary: n)
  case 0
  then show ?case by (simp add: bit_length.simps)
next
  case (Suc k)
  show ?case
  proof (cases "n = 0")
    case True
    then show ?thesis by (simp add: bit_length.simps)
  next
    case False
    from Suc.prems have "n div 2 < 2 ^ k" by simp
    then have "bit_length (n div 2) \<le> k" by (rule Suc.IH)
    with False show ?thesis by (subst bit_length.simps) simp
  qed
qed

lemma bit_length_eq: "2 ^ k \<le> n \<Longrightarrow> n < 2 ^ Suc k \<Longrightarrow> bit_length n = Suc k"
proof (induction k arbitrary: n)
  case 0
  then have "n = 1" by simp
  then show ?case by (simp add: bit_length.simps)
next
  case (Suc k)
  from Suc.prems have "2 ^ k \<le> n div 2" "n div 2 < 2 ^ Suc k" "n \<noteq> 0"
    by auto
  with Suc.IH [of "n div 2"] show ?case
    by (subst bit_length.simps) simp
qed

lemma to_double_small: "\<bar>n\<bar> < 2 ^ 53 \<Longrightarrow> to_double n = n"
proof -
  assume a: "\<bar>n\<bar> < 2 ^ 53"
  then have "nat \<bar>n\<bar> < 2 ^ 53"
    by simp
  then have "bit_length (nat \<bar>n\<bar>) - 53 = 0"
    using bit_length_le [of "nat \<bar>n\<bar>" 53] by simp
  then show ?thesis
    by (simp add: to_double_def Let_def mult_sgn_abs)
qed

lemma bit_length_2_53: "bit_length 9007199254740992 = Suc 53"
  by (rule bit_length_eq) simp_all

lemma to_double_2_53: "to_double 9007199254740992 = 9007199254740992"
  by (simp add: to_double_def Let_def bit_length_2_53)

lemma to_double_2_53_1: "to_double 9007199254740993 = 9007199254740992"
proof -
  have "bit_length 9007199254740993 = Suc 53"
    by (rule bit_length_eq) simp_all
  then show ?thesis
    by (simp add: to_double_def Let_def)
qed

lemma to_double_exact: "- (2 ^ 53) < n \<Longrightarrow> n \<le> 2 ^ 53 \<Longrightarrow> to_double n = n"
proof -
  assume a: "- (2 ^ 53) < n" "n \<le> 2 ^ 53"
  then consider "n = 9007199254740992" | "\<bar>n\<bar> < 2 ^ 53"
    by fastforce
  then show ?thesis
    by cases (simp_all add: to_double_2_53 to_double_small)
qed

lemma Math_max_Inr: "Math_max max_arguments x xs = Inr m \<Longrightarrow> m = Max (set (x # xs))"
  by (simp add: Math_max_def Max.set_eq_fold [symmetric] del: set_simps split: if_splits)

text \<open>
  Where the ids are safe integers the sum is exact: the id that comes out, when one
  does, is 1 for the empty store and the greatest id plus 1 otherwise; and one comes out
  when the store is within \<open>max_arguments\<close>.
\<close>

lemma Max_safe:
  assumes "list_all (\<lambda>p. safe_integer (id_num p)) ps" and "ps \<noteq> []"
  shows "safe_integer (Max (id_num ` set ps))"
proof -
  have "Max (id_num ` set ps) \<in> id_num ` set ps"
    using assms(2) by (intro Max_in) simp_all
  then show ?thesis
    using assms(1) by (auto simp: list_all_iff)
qed

lemma next_id_Inr:
  assumes "list_all (\<lambda>p. safe_integer (id_num p)) ps"
    and "next_id max_arguments ps = Inr i"
  shows "i = (if ps = [] then 1 else Max (id_num ` set ps) + 1)"
proof (cases ps)
  case Nil
  with assms(2) show ?thesis by (simp add: next_id_def)
next
  case (Cons p ps')
  with assms(2) obtain m where m: "Math_max max_arguments (id_num p) (map id_num ps') = Inr m"
    and i: "i = js_add m 1"
    by (auto simp: next_id_def split: sum.splits)
  from Math_max_Inr [OF m] Cons have "m = Max (id_num ` set ps)"
    by simp
  moreover from Max_safe [OF assms(1)] Cons have "safe_integer (Max (id_num ` set ps))"
    by simp
  ultimately have "to_double (m + 1) = m + 1"
    by (intro to_double_exact) (simp_all add: safe_integer_def)
  with i \<open>m = Max (id_num ` set ps)\<close> Cons show ?thesis
    by (simp add: js_add_def)
qed

lemma next_id_safe:
  assumes "list_all (\<lambda>p. safe_integer (id_num p)) ps" and "length ps \<le> max_arguments"
  shows "next_id max_arguments ps = Inr (if ps = [] then 1 else Max (id_num ` set ps) + 1)"
proof -
  have "\<exists>i. next_id max_arguments ps = Inr i"
    using assms(2) by (cases ps) (auto simp: next_id_def Math_max_def)
  then show ?thesis
    using next_id_Inr [OF assms(1)] by auto
qed

lemma next_id_too_many:
  "max_arguments < length ps \<Longrightarrow> next_id max_arguments ps = Inl RangeError"
  by (cases ps) (auto simp: next_id_def Math_max_def)

lemma findIndex_None: "findIndex P xs = None \<longleftrightarrow> (\<forall>x\<in>set xs. \<not> P x)"
  by (induction xs) auto

lemma findIndex_Some:
  "findIndex P xs = Some i \<Longrightarrow> i < length xs \<and> P (xs ! i) \<and> (\<forall>j<i. \<not> P (xs ! j))"
proof (induction xs arbitrary: i)
  case Nil
  then show ?case by simp
next
  case (Cons x xs)
  show ?case
  proof (cases "P x")
    case True
    with Cons.prems show ?thesis by simp
  next
    case False
    with Cons.prems obtain k where k: "findIndex P xs = Some k" "i = Suc k"
      by auto
    from Cons.IH [OF k(1)] False k(2) show ?thesis
      by (auto simp: less_Suc_eq_0_disj)
  qed
qed

lemma findIndex_exists: "\<exists>x\<in>set xs. P x \<Longrightarrow> \<exists>i. findIndex P xs = Some i"
  using findIndex_None [of P xs] by (cases "findIndex P xs") auto


lemma parseInt_4: "parseInt ''4'' = Some 4"
  by (simp add: parseInt_def is_space_def radix_digit_def hex_val_def radix_val_def)






text \<open>A store beyond \<open>max_arguments\<close>: the request fails and nothing is written.\<close>

lemma post_add_proverb_too_many:
  "required_present b \<Longrightarrow> read_all fs = Some (fs', Inr ps) \<Longrightarrow> max_arguments < length ps \<Longrightarrow>
     post_add_proverb max_arguments fs b =
       Some (fs', Render_add_proverb ''Failed to add proverb'' b)"
  by (simp add: required_present_def post_add_proverb_def next_id_too_many)




lemma sample_ids: "map id_num sampleProverbs = [1, 2, 3, 4, 5]"
  by (simp add: sampleProverbs_def sample1_def sample2_def sample3_def sample4_def sample5_def)

section \<open>The claims\<close>

text \<open>
  C1. Whatever the file held before, after \<^verbatim>\<open>writeProverbs(x)\<close> a call of
  \<^verbatim>\<open>readProverbs()\<close> returns the sequence \<open>x\<close>: the array of the same objects in the
  same order, that is the same records, field for field. The file is left as written.
\<close>

theorem write_then_read:
  "readProverbs (writeProverbs fs x) = (writeProverbs fs x, Inr (JArr (map to_json x)))
   \<and> read_all (writeProverbs fs x) = Some (writeProverbs fs x, Inr x)"
  by (simp add: read_all_written)
    (simp add: writeProverbs_def writeFile_def readProverbs_Some JSON_parse_stringify)

text \<open>
  The records \<open>w3\<close> (without \<^verbatim>\<open>meaning\<close>) and \<open>w1\<close> are written as the text
  \<open>stored_example\<close> and read back from it.
\<close>

lemma JSON_stringify_example: "JSON_stringify [w3, w1] = stored_example"
  by code_simp

theorem write_then_read_witness:
  "writeProverbs None [w3, w1] = Some stored_example
   \<and> read_all (Some stored_example) = Some (Some stored_example, Inr [w3, w1])"
  using write_then_read [of None "[w3, w1]"]
  by (simp add: writeProverbs_def writeFile_def JSON_stringify_example)

text \<open>
  C2, as the code has it. A create request whose four required fields are all
  non-empty, on a store that reads back as \<open>ps\<close>, where \<open>ps\<close> has no more records than a
  call accepts arguments and every id of \<open>ps\<close> is a safe integer, appends one record and
  persists the result; the id of the new record is 1 when \<open>ps\<close> is empty and the
  greatest id of \<open>ps\<close> plus 1 otherwise.
\<close>

theorem create_assigns_max_plus_one:
  assumes "\<not> falsy (b ''textDari'')" "\<not> falsy (b ''textPashto'')"
    "\<not> falsy (b ''translationEn'')" "\<not> falsy (b ''category'')"
    and "read_all fs = Some (fs', Inr ps)"
    and "length ps \<le> max_arguments"
    and "list_all (\<lambda>p. safe_integer (id_num p)) ps"
  shows "\<exists>i. post_add_proverb max_arguments fs b =
               Some (writeProverbs fs' (ps @ [newProverb i b]),
                     Redirect ''/?success=Proverb added successfully'')
           \<and> read_all (writeProverbs fs' (ps @ [newProverb i b]))
               = Some (writeProverbs fs' (ps @ [newProverb i b]), Inr (ps @ [newProverb i b]))
           \<and> id_num (newProverb i b) = i
           \<and> i = (if ps = [] then 1 else Max (id_num ` set ps) + 1)"
proof -
  let ?i = "if ps = [] then 1 else Max (id_num ` set ps) + 1"
  have "next_id max_arguments ps = Inr ?i"
    using assms(7,6) by (rule next_id_safe)
  then have "post_add_proverb max_arguments fs b =
      Some (writeProverbs fs' (ps @ [newProverb ?i b]),
            Redirect ''/?success=Proverb added successfully'')"
    using assms(1-5) by (simp add: post_add_proverb_def)
  moreover have "id_num (newProverb ?i b) = ?i"
    by (simp add: newProverb_def)
  ultimately show ?thesis
    using read_all_written [of fs' "ps @ [newProverb ?i b]"] by (intro exI [of _ ?i]) simp
qed

text \<open>With the ids 1, 3 and 5 stored the new id is 6; on an absent file it is 1.\<close>

theorem create_assigns_max_plus_one_witness:
  "read_all (Some (JSON_stringify [w1, w3, w5]))
     = Some (Some (JSON_stringify [w1, w3, w5]), Inr [w1, w3, w5])
   \<and> map id_num [w1, w3, w5] = [1, 3, 5]
   \<and> post_add_proverb 3 (Some (JSON_stringify [w1, w3, w5])) form1 =
       Some (Some (JSON_stringify [w1, w3, w5, newProverb 6 form1]),
             Redirect ''/?success=Proverb added successfully'')
   \<and> id_num (newProverb 6 form1) = 6
   \<and> post_add_proverb 3 None form1 =
       Some (Some (JSON_stringify [newProverb 1 form1]),
             Redirect ''/?success=Proverb added successfully'')"
proof -
  have f: "\<not> falsy (form1 ''textDari'')" "\<not> falsy (form1 ''textPashto'')"
    "\<not> falsy (form1 ''translationEn'')" "\<not> falsy (form1 ''category'')"
    by (simp_all add: form1_def falsy_def)
  have r: "read_all (Some (JSON_stringify [w1, w3, w5]))
      = Some (Some (JSON_stringify [w1, w3, w5]), Inr [w1, w3, w5])"
    by (rule read_all_stringify)
  have i: "map id_num [w1, w3, w5] = [1, 3, 5]"
    by (simp add: w1_def w3_def w5_def)
  have l: "length [w1, w3, w5] \<le> 3" "length ([] :: proverb list) \<le> 3"
    by simp_all
  have s: "list_all (\<lambda>p. safe_integer (id_num p)) [w1, w3, w5]"
    "list_all (\<lambda>p. safe_integer (id_num p)) []"
    by (simp_all add: safe_integer_def w1_def w3_def w5_def)
  have m: "(if [w1, w3, w5] = [] then 1 else Max (id_num ` set [w1, w3, w5]) + 1) = 6"
    by (simp add: w1_def w3_def w5_def)
  show ?thesis
    using create_assigns_max_plus_one [OF f r l(1) s(1)]
      create_assigns_max_plus_one [OF f read_all_None l(2) s(2)] r i
    unfolding m
    by (auto simp: writeProverbs_def writeFile_def newProverb_def)
qed

text \<open>
  C2, as stated, fails where the greatest id is \<open>2 ^ 53\<close>: the sum is a double, and
  \<open>2 ^ 53 + 1\<close> rounds to \<open>2 ^ 53\<close>, so the new record gets the id \<open>2 ^ 53\<close> again and not
  the greatest id plus 1.
\<close>

theorem create_from_two_to_53:
  "read_all (Some (JSON_stringify [w_big]))
     = Some (Some (JSON_stringify [w_big]), Inr [w_big])
   \<and> id_num w_big = 9007199254740992
   \<and> post_add_proverb 100000 (Some (JSON_stringify [w_big])) form1 =
       Some (Some (JSON_stringify [w_big, newProverb 9007199254740992 form1]),
             Redirect ''/?success=Proverb added successfully'')
   \<and> id_num (newProverb 9007199254740992 form1) = 9007199254740992
   \<and> Max (id_num ` set [w_big]) + 1 = 9007199254740993"
proof -
  have "next_id 100000 [w_big] = Inr 9007199254740992"
    by (simp add: next_id_def Math_max_def js_add_def w_big_def to_double_2_53_1)
  then show ?thesis
    by (simp add: post_add_proverb_def read_all_stringify form1_def falsy_def
        writeProverbs_def writeFile_def)
      (simp add: newProverb_def w_big_def)
qed

text \<open>
  C3, as the code has it. When the store reads back as \<open>ps\<close> and no record of \<open>ps\<close>
  has the requested id, \<^verbatim>\<open>GET /proverb/:id\<close>, \<^verbatim>\<open>POST /edit-proverb/:id\<close>
  and \<^verbatim>\<open>POST /delete-proverb/:id\<close> each answer with a redirect whose notice is
  \<^verbatim>\<open>Proverb not found\<close>, and none of them calls \<^verbatim>\<open>writeProverbs\<close>: the
  file is as \<^verbatim>\<open>readProverbs\<close> left it and reads back as \<open>ps\<close> again. That is
  the file untouched when it exists; when it is absent, reading has created it holding
  \<^verbatim>\<open>[]\<close>.
\<close>

theorem not_found_leaves_collection:
  assumes "read_all fs = Some (fs', Inr ps)"
    and "\<forall>p\<in>set ps. Some (id_num p) \<noteq> parseInt rid"
  shows "get_proverb fs rid = Some (fs', Redirect ''/?error=Proverb not found'')
         \<and> post_edit_proverb fs rid b = Some (fs', Redirect ''/?error=Proverb not found'')
         \<and> post_delete_proverb fs rid =
             Some (fs', Redirect (''/proverb/'' @ rid @ ''?error=Proverb not found''))
         \<and> read_all fs' = Some (fs', Inr ps)
         \<and> fs' = (case fs of None \<Rightarrow> Some ''[]'' | Some data \<Rightarrow> Some data)"
proof -
  have g: "find (\<lambda>p. Some (id_num p) = parseInt rid) ps = None"
    using assms(2) by (simp add: find_None_iff)
  have e: "findIndex (\<lambda>p. Some (id_num p) = parseInt rid) ps = None"
    using assms(2) by (simp add: findIndex_None)
  have d: "filter (\<lambda>p. Some (id_num p) \<noteq> parseInt rid) ps = ps"
    using assms(2) by simp
  show ?thesis
    using assms(1) read_all_again [OF assms(1)] read_all_file [OF assms(1)]
    by (simp add: get_proverb_def post_edit_proverb_def post_delete_proverb_def g e d)
qed

theorem not_found_leaves_collection_witness:
  "read_all (Some (JSON_stringify [w1, w3, w5]))
     = Some (Some (JSON_stringify [w1, w3, w5]), Inr [w1, w3, w5])
   \<and> parseInt ''4'' = Some 4
   \<and> map id_num [w1, w3, w5] = [1, 3, 5]
   \<and> get_proverb (Some (JSON_stringify [w1, w3, w5])) ''4''
       = Some (Some (JSON_stringify [w1, w3, w5]), Redirect ''/?error=Proverb not found'')
   \<and> post_edit_proverb (Some (JSON_stringify [w1, w3, w5])) ''4'' form1
       = Some (Some (JSON_stringify [w1, w3, w5]), Redirect ''/?error=Proverb not found'')
   \<and> post_delete_proverb (Some (JSON_stringify [w1, w3, w5])) ''4''
       = Some (Some (JSON_stringify [w1, w3, w5]), Redirect ''/proverb/4?error=Proverb not found'')"
proof -
  have r: "read_all (Some (JSON_stringify [w1, w3, w5]))
      = Some (Some (JSON_stringify [w1, w3, w5]), Inr [w1, w3, w5])"
    by (rule read_all_stringify)
  have n: "\<forall>p\<in>set [w1, w3, w5]. Some (id_num p) \<noteq> parseInt ''4''"
    by (simp add: parseInt_4 w1_def w3_def w5_def)
  show ?thesis
    using not_found_leaves_collection [OF r n, of form1] r
    by (simp add: parseInt_4 w1_def w3_def w5_def)
qed

text \<open>
  C3, as stated, fails where there is no file: the three requests answer
  \<^verbatim>\<open>Proverb not found\<close>, and the file, absent before, exists afterwards.
\<close>

theorem not_found_creates_absent_file:
  "read_all None = Some (Some ''[]'', Inr [])
   \<and> get_proverb None ''7'' = Some (Some ''[]'', Redirect ''/?error=Proverb not found'')
   \<and> post_edit_proverb None ''7'' form1 = Some (Some ''[]'', Redirect ''/?error=Proverb not found'')
   \<and> post_delete_proverb None ''7'' = Some (Some ''[]'', Redirect ''/proverb/7?error=Proverb not found'')
   \<and> Some ''[]'' \<noteq> (None :: proverbs_file)"
  by (simp add: read_all_None get_proverb_def post_edit_proverb_def post_delete_proverb_def)








text \<open>
  C7. A create request with one of \<^verbatim>\<open>textDari\<close>, \<^verbatim>\<open>textPashto\<close>,
  \<^verbatim>\<open>translationEn\<close>, \<^verbatim>\<open>category\<close> empty or missing leaves the file as it is
  (it is not even read) and renders the form again with the body as it was submitted.
\<close>

theorem create_validation_failure:
  assumes "falsy (b ''textDari'') \<or> falsy (b ''textPashto'') \<or> falsy (b ''translationEn'')
    \<or> falsy (b ''category'')"
  shows "post_add_proverb max_arguments fs b =
           Some (fs, Render_add_proverb ''Please fill in all required fields'' b)"
  using assms by (simp add: post_add_proverb_def)

theorem create_validation_failure_witness:
  "falsy (form3 ''textPashto'') \<and> falsy (form3 ''translationEn'')
   \<and> post_add_proverb 100000 (Some (JSON_stringify [w1, w3, w5])) form3 =
       Some (Some (JSON_stringify [w1, w3, w5]),
             Render_add_proverb ''Please fill in all required fields'' form3)
   \<and> post_add_proverb 100000 None form3 =
       Some (None, Render_add_proverb ''Please fill in all required fields'' form3)"
proof -
  have f: "falsy (form3 ''textPashto'')" "falsy (form3 ''translationEn'')"
    by (simp_all add: form3_def falsy_def)
  then have a: "falsy (form3 ''textDari'') \<or> falsy (form3 ''textPashto'')
      \<or> falsy (form3 ''translationEn'') \<or> falsy (form3 ''category'')"
    by simp
  show ?thesis
    using create_validation_failure [OF a] f by simp
qed

text \<open>
  C8. \<^verbatim>\<open>readProverbs\<close> on an absent file writes \<^verbatim>\<open>[]\<close>, which parses as the
  empty array, and returns the empty array; on a file whose text \<^verbatim>\<open>JSON.parse\<close>
  rejects it throws that error and leaves the file as it is.
\<close>

theorem read_absent_or_malformed:
  "readProverbs None = (Some ''[]'', Inr (JArr []))
   \<and> JSON_parse ''[]'' = Inr (JArr [])
   \<and> read_all None = Some (Some ''[]'', Inr [])
   \<and> (JSON_parse data = Inl e \<longrightarrow>
        readProverbs (Some data) = (Some data, Inl e)
        \<and> read_all (Some data) = Some (Some data, Inl e))"
proof -
  have "JSON_parse ''[]'' = Inr (JArr [])"
    using JSON_parse_stringify [of "[]"] by (simp add: JSON_stringify_Nil)
  then show ?thesis
    by (simp add: readProverbs_None read_all_None readProverbs_Some read_all_def as_proverbs_def)
qed

theorem read_absent_or_malformed_witness:
  "JSON_parse ''[{'' = Inl SyntaxError
   \<and> readProverbs (Some ''[{'') = (Some ''[{'', Inl SyntaxError)
   \<and> read_all (Some ''[{'') = Some (Some ''[{'', Inl SyntaxError)"
proof -
  have m: "JSON_parse ''[{'' = Inl SyntaxError"
    by code_simp
  show ?thesis
    using read_absent_or_malformed [of "''[{''" SyntaxError] m by simp
qed

text \<open>
  C9. \<^verbatim>\<open>initializeData\<close> with no file, or with a store that reads back empty, writes
  the five sample proverbs, whose ids are 1 to 5, and they read back; with a store that
  reads back non-empty it leaves the file as it is.
\<close>

theorem initialize_seeds_empty_store:
  "initializeData None = Some (Some (JSON_stringify sampleProverbs), Inr ())
   \<and> read_all (Some (JSON_stringify sampleProverbs))
       = Some (Some (JSON_stringify sampleProverbs), Inr sampleProverbs)
   \<and> length sampleProverbs = 5
   \<and> map id_num sampleProverbs = [1, 2, 3, 4, 5]
   \<and> (read_all fs = Some (fs', Inr []) \<longrightarrow>
        initializeData fs = Some (Some (JSON_stringify sampleProverbs), Inr ()))
   \<and> (read_all fs = Some (fs', Inr ps) \<and> ps \<noteq> [] \<longrightarrow>
        initializeData fs = Some (fs, Inr ()) \<and> read_all fs = Some (fs, Inr ps))"
proof -
  have "read_all fs = Some (fs', Inr ps) \<and> ps \<noteq> [] \<longrightarrow> fs' = fs"
    by (cases fs) (auto simp: read_all_None dest: read_all_Some_file)
  moreover have "length sampleProverbs = 5"
    by (simp add: sampleProverbs_def)
  ultimately show ?thesis
    by (auto simp: initializeData_def read_all_None read_all_stringify sample_ids
        writeProverbs_def writeFile_def)
qed

theorem initialize_seeds_empty_store_witness:
  "read_all (Some ''[]'') = Some (Some ''[]'', Inr [])
   \<and> initializeData (Some ''[]'') = Some (Some (JSON_stringify sampleProverbs), Inr ())
   \<and> read_all (Some (JSON_stringify [w1, w3, w5]))
       = Some (Some (JSON_stringify [w1, w3, w5]), Inr [w1, w3, w5])
   \<and> initializeData (Some (JSON_stringify [w1, w3, w5]))
       = Some (Some (JSON_stringify [w1, w3, w5]), Inr ())"
proof -
  have e: "read_all (Some ''[]'') = Some (Some ''[]'', Inr [])"
    using read_all_stringify [of "[]"] by (simp add: JSON_stringify_Nil)
  have r: "read_all (Some (JSON_stringify [w1, w3, w5]))
      = Some (Some (JSON_stringify [w1, w3, w5]), Inr [w1, w3, w5])"
    by (rule read_all_stringify)
  show ?thesis
    using initialize_seeds_empty_store [of "Some ''[]''" "Some ''[]''" "[]"]
      initialize_seeds_empty_store
        [of "Some (JSON_stringify [w1, w3, w5])" "Some (JSON_stringify [w1, w3, w5])" "[w1, w3, w5]"]
      e r
    by simp
qed

text \<open>
  C10. An edit request on an existing id is never refused for its values: whatever the
  body holds, the record written has the body's values in its five text fields, empty
  and missing ones included. A missing \<^verbatim>\<open>meaning\<close> is stored as
  \<^verbatim>\<open>undefined\<close>, so the serialized object has no such member, where a create request
  with the same body stores the empty string.
\<close>

theorem edit_does_not_validate:
  assumes "read_all fs = Some (fs', Inr ps)"
    and "p \<in> set ps" and "Some (id_num p) = parseInt rid"
  shows "\<exists>i < length ps.
           post_edit_proverb fs rid b =
             Some (writeProverbs fs' (ps[i := edited (ps ! i) b]),
                   Redirect (''/proverb/'' @ rid @ ''?success=Proverb updated successfully''))
         \<and> textDari (edited (ps ! i) b) = b ''textDari''
         \<and> textPashto (edited (ps ! i) b) = b ''textPashto''
         \<and> translationEn (edited (ps ! i) b) = b ''translationEn''
         \<and> category (edited (ps ! i) b) = b ''category''
         \<and> meaning (edited (ps ! i) b) = b ''meaning''
         \<and> (b ''meaning'' = None \<longrightarrow>
              map_of (json_members (to_json (edited (ps ! i) b))) ''meaning'' = None
              \<and> meaning (newProverb j b) = Some [])"
proof -
  obtain i where i: "findIndex (\<lambda>p. Some (id_num p) = parseInt rid) ps = Some i"
    using findIndex_exists [of ps "\<lambda>p. Some (id_num p) = parseInt rid"] assms(2,3) by blast
  note f = findIndex_Some [OF i]
  have "post_edit_proverb fs rid b =
      Some (writeProverbs fs' (ps[i := edited (ps ! i) b]),
            Redirect (''/proverb/'' @ rid @ ''?success=Proverb updated successfully''))"
    using assms(1) i by (simp add: post_edit_proverb_def)
  moreover have "b ''meaning'' = None \<longrightarrow>
      map_of (json_members (to_json (edited (ps ! i) b))) ''meaning'' = None"
    by (simp add: json_members_def to_json_def edited_def obj_member_def split: option.splits)
  ultimately show ?thesis
    using f by (intro exI [of _ i]) (simp add: edited_def newProverb_def falsy_def)
qed

theorem edit_does_not_validate_witness:
  "w3 \<in> set [w1, w3, w5] \<and> Some (id_num w3) = parseInt ''3''
   \<and> falsy (form2 ''textPashto'') \<and> falsy (form2 ''translationEn'') \<and> form2 ''meaning'' = None
   \<and> post_edit_proverb (Some (JSON_stringify [w1, w3, w5])) ''3'' form2 =
       Some (Some (JSON_stringify [w1, edited w3 form2, w5]),
             Redirect ''/proverb/3?success=Proverb updated successfully'')
   \<and> textPashto (edited w3 form2) = Some []
   \<and> translationEn (edited w3 form2) = None
   \<and> meaning (edited w3 form2) = None
   \<and> map fst (json_members (to_json (edited w3 form2))) = [''id'', ''textDari'', ''textPashto'', ''category'']
   \<and> meaning (newProverb 6 form2) = Some []"
proof -
  have r: "read_all (Some (JSON_stringify [w1, w3, w5]))
      = Some (Some (JSON_stringify [w1, w3, w5]), Inr [w1, w3, w5])"
    by (rule read_all_stringify)
  have m: "w3 \<in> set [w1, w3, w5]"
    by simp
  have p3: "parseInt ''3'' = Some 3"
    by (simp add: parseInt_def is_space_def radix_digit_def hex_val_def radix_val_def)
  have s: "Some (id_num w3) = parseInt ''3''"
    by (simp add: p3 w3_def)
  obtain i where i: "i < length [w1, w3, w5]"
    "post_edit_proverb (Some (JSON_stringify [w1, w3, w5])) ''3'' form2 =
       Some (writeProverbs (Some (JSON_stringify [w1, w3, w5]))
               ([w1, w3, w5][i := edited ([w1, w3, w5] ! i) form2]),
             Redirect (''/proverb/'' @ ''3'' @ ''?success=Proverb updated successfully''))"
    using edit_does_not_validate [OF r m s, of form2] by blast
  have e: "findIndex (\<lambda>p. Some (id_num p) = parseInt ''3'') [w1, w3, w5] = Some 1"
    by (simp add: p3 w1_def w3_def)
  have "post_edit_proverb (Some (JSON_stringify [w1, w3, w5])) ''3'' form2 =
       Some (Some (JSON_stringify [w1, edited w3 form2, w5]),
             Redirect ''/proverb/3?success=Proverb updated successfully'')"
    using r e by (simp add: post_edit_proverb_def writeProverbs_def writeFile_def)
  then show ?thesis
    using s i
    by (simp add: edited_def form2_def falsy_def newProverb_def json_members_def to_json_def
        obj_member_def)
qed

end
